theory Spec2Isabelle
  imports Main "HOL-Library.AList"
begin

section \<open>Data model (models.py)\<close>

text \<open>The enumeration \<open>C4Level\<close>.\<close>

datatype C4Level = CONTEXT | CONTAINER | COMPONENT | CODE

text \<open>Values of the open \<open>properties\<close> dictionary (\<open>Dict[str, Any]\<close>).\<close>

datatype any_value =
    ANone
  | ABool bool
  | AInt int
  | AStr string
  | AList "any_value list"
  | ADict "(string \<times> any_value) list"

type_synonym properties = "(string \<times> any_value) list"

text \<open>
  Class \<open>C4Element\<close>. The fields keep the names of the source with the prefix \<open>el_\<close>.
\<close>

record C4Element =
  el_id :: string
  el_name :: string
  el_type :: string
  el_level :: C4Level
  el_description :: string
  el_technology :: "string option"
  el_relationships :: "string list"
  el_properties :: properties
  el_parent_id :: "string option"
  el_children :: "string list"

text \<open>
  A relationship is the dictionary with the keys \<open>id\<close>, \<open>from\<close>, \<open>to\<close>,
  \<open>description\<close> and \<open>technology\<close> that the generator builds.
\<close>

record relationship =
  rel_id :: string
  rel_from :: string
  rel_to :: string
  rel_description :: string
  rel_technology :: string

text \<open>
  Class \<open>C4Diagram\<close>. Element objects are shared between the element store and the
  diagrams that list them: constructing a diagram stores the element objects it is given
  (or at most copies them shallowly, which leaves the list object \<open>children\<close> shared),
  and the only mutation of an element anywhere in the generator is
  \<open>children.append\<close>. Elements therefore live in a heap of objects, and a diagram holds
  references (heap addresses). Timestamps are abstract points in time.
\<close>

type_synonym ref = nat
type_synonym datetime = nat

record C4Diagram =
  dg_id :: string
  dg_name :: string
  dg_level :: C4Level
  dg_elements :: "ref list"
  dg_relationships :: "relationship list"
  dg_created_at :: datetime
  dg_updated_at :: datetime

text \<open>
  One entry of the lists \<open>containers\<close> / \<open>components\<close>: a dictionary in which the
  key \<open>name\<close> is read with \<open>info["name"]\<close> and the others with \<open>info.get(key, default)\<close>.
  \<open>None\<close> stands for an absent key.
\<close>

record child_info =
  ci_name :: "string option"
  ci_description :: "string option"
  ci_technology :: "string option"
  ci_properties :: "properties option"

datatype error = ValueError string | KeyError string

section \<open>The generator state (class C4DiagramGenerator)\<close>

text \<open>
  \<open>diagrams\<close> and \<open>elements\<close> are Python dictionaries: association lists in insertion
  order, read with \<open>map_of\<close> and written with \<open>AList.update\<close> (an existing key keeps its
  position, a new key goes to the end). \<open>heap\<close> holds the element objects; a
  reference is an index into it and a new object is appended. \<open>uuid.uuid4()\<close> is an
  external source of identifiers: the state carries the sequence of strings it will
  return and the number of calls made so far.
\<close>

record generator =
  diagrams :: "(string \<times> C4Diagram) list"
  elements :: "(string \<times> ref) list"
  heap :: "C4Element list"
  uuid_source :: "nat \<Rightarrow> string"
  uuid_count :: nat

definition init :: "(nat \<Rightarrow> string) \<Rightarrow> generator" where
  "init src = \<lparr>diagrams = [], elements = [], heap = [], uuid_source = src, uuid_count = 0\<rparr>"

definition uuid4 :: "generator \<Rightarrow> string \<times> generator" where
  "uuid4 g = (uuid_source g (uuid_count g), g\<lparr>uuid_count := Suc (uuid_count g)\<rparr>)"

definition new_object :: "C4Element \<Rightarrow> generator \<Rightarrow> ref \<times> generator" where
  "new_object e g = (length (heap g), g\<lparr>heap := heap g @ [e]\<rparr>)"

definition deref :: "generator \<Rightarrow> ref \<Rightarrow> C4Element" where
  "deref g r = heap g ! r"

definition children_append :: "ref \<Rightarrow> string \<Rightarrow> generator \<Rightarrow> generator" where
  "children_append r cid g =
     g\<lparr>heap := (heap g)[r := (heap g ! r)\<lparr>el_children := el_children (heap g ! r) @ [cid]\<rparr>]\<rparr>"

section \<open>Hierarchy builder\<close>

text \<open>
  Every function takes the generator state and returns its result with the new state.
  The arguments \<open>now1\<close> and \<open>now2\<close> are what the two calls of \<open>datetime.now()\<close>
  return; a raised exception is the left summand of the result.
\<close>

definition create_context_diagram ::
  "string \<Rightarrow> string \<Rightarrow> datetime \<Rightarrow> datetime \<Rightarrow> generator \<Rightarrow> C4Diagram \<times> generator" where
  "create_context_diagram system_name description now1 now2 g =
     (let (diagram_id, g1) = uuid4 g;
          system_element = \<lparr>el_id = diagram_id @ ''_system'', el_name = system_name,
             el_type = ''System'', el_level = CONTEXT, el_description = description,
             el_technology = Some [], el_relationships = [], el_properties = [],
             el_parent_id = None, el_children = []\<rparr>;
          (r, g2) = new_object system_element g1;
          diagram = \<lparr>dg_id = diagram_id, dg_name = system_name @ '' - Context'',
             dg_level = CONTEXT, dg_elements = [r], dg_relationships = [],
             dg_created_at = now1, dg_updated_at = now2\<rparr>;
          g3 = g2\<lparr>diagrams := AList.update diagram_id diagram (diagrams g2)\<rparr>;
          g4 = g3\<lparr>elements := AList.update (el_id system_element) r (elements g3)\<rparr>
      in (diagram, g4))"

text \<open>
  The body of the \<open>for\<close> loops of \<open>create_container_diagram\<close> and
  \<open>create_component_diagram\<close>. The two loops are the same text up to three constants:
  the \<open>type\<close> string, the level and the description of the implicit relationship.
  The identifier \<open>child_id\<close> has already been drawn and the name already read.
\<close>

definition add_child ::
  "string \<Rightarrow> C4Level \<Rightarrow> string \<Rightarrow> string \<Rightarrow> ref \<Rightarrow> string \<Rightarrow> string \<Rightarrow> child_info \<Rightarrow> generator
     \<Rightarrow> ref \<times> relationship \<times> generator" where
  "add_child knd lvl dsc parent_id parent child_id nm info g =
     (let child_element = \<lparr>el_id = child_id, el_name = nm, el_type = knd, el_level = lvl,
             el_description = (case ci_description info of None \<Rightarrow> [] | Some d \<Rightarrow> d),
             el_technology = Some (case ci_technology info of None \<Rightarrow> [] | Some t \<Rightarrow> t),
             el_relationships = [],
             el_properties = (case ci_properties info of None \<Rightarrow> [] | Some p \<Rightarrow> p),
             el_parent_id = Some parent_id, el_children = []\<rparr>;
          (r, g1) = new_object child_element g;
          g2 = g1\<lparr>elements := AList.update child_id r (elements g1)\<rparr>;
          (rid, g3) = uuid4 g2;
          rel = \<lparr>rel_id = rid, rel_from = child_id, rel_to = parent_id,
             rel_description = dsc, rel_technology = []\<rparr>;
          g4 = children_append parent child_id g3
      in (r, rel, g4))"

text \<open>
  The loop over the child specifications. \<open>els\<close> and \<open>rels\<close> are the local lists
  \<open>elements\<close> and \<open>relationships\<close>. A specification without the key \<open>name\<close>
  raises \<open>KeyError\<close> after the identifier was drawn; what earlier iterations wrote
  stays written.
\<close>

fun child_loop ::
  "string \<Rightarrow> C4Level \<Rightarrow> string \<Rightarrow> string \<Rightarrow> ref \<Rightarrow> child_info list \<Rightarrow> ref list \<Rightarrow> relationship list
     \<Rightarrow> generator \<Rightarrow> (error + ref list \<times> relationship list) \<times> generator" where
  "child_loop knd lvl dsc parent_id parent [] els rels g = (Inr (els, rels), g)"
| "child_loop knd lvl dsc parent_id parent (info # infos) els rels g =
     (let (child_id, g1) = uuid4 g
      in case ci_name info of
           None \<Rightarrow> (Inl (KeyError ''name''), g1)
         | Some nm \<Rightarrow>
             (case add_child knd lvl dsc parent_id parent child_id nm info g1 of
                (r, rel, g2) \<Rightarrow>
                  child_loop knd lvl dsc parent_id parent infos (els @ [r]) (rels @ [rel]) g2))"

definition create_container_diagram ::
  "string \<Rightarrow> child_info list \<Rightarrow> datetime \<Rightarrow> datetime \<Rightarrow> generator
     \<Rightarrow> (error + C4Diagram) \<times> generator" where
  "create_container_diagram system_id containers now1 now2 g =
     (let (diagram_id, g1) = uuid4 g
      in case map_of (elements g1) system_id of
           None \<Rightarrow> (Inl (ValueError (''System element '' @ system_id @ '' not found'')), g1)
         | Some system_element \<Rightarrow>
             (case child_loop ''Container'' CONTAINER ''deployed on'' system_id system_element
                     containers [system_element] [] g1 of
                (Inl e, g2) \<Rightarrow> (Inl e, g2)
              | (Inr (els, rels), g2) \<Rightarrow>
                  (let diagram = \<lparr>dg_id = diagram_id,
                          dg_name = el_name (deref g2 system_element) @ '' - Containers'',
                          dg_level = CONTAINER, dg_elements = els, dg_relationships = rels,
                          dg_created_at = now1, dg_updated_at = now2\<rparr>
                   in (Inr diagram,
                       g2\<lparr>diagrams := AList.update diagram_id diagram (diagrams g2)\<rparr>))))"

definition create_component_diagram ::
  "string \<Rightarrow> child_info list \<Rightarrow> datetime \<Rightarrow> datetime \<Rightarrow> generator
     \<Rightarrow> (error + C4Diagram) \<times> generator" where
  "create_component_diagram container_id components now1 now2 g =
     (let (diagram_id, g1) = uuid4 g
      in case map_of (elements g1) container_id of
           None \<Rightarrow> (Inl (ValueError (''Container element '' @ container_id @ '' not found'')), g1)
         | Some container_element \<Rightarrow>
             (case child_loop ''Component'' COMPONENT ''part of'' container_id container_element
                     components [container_element] [] g1 of
                (Inl e, g2) \<Rightarrow> (Inl e, g2)
              | (Inr (els, rels), g2) \<Rightarrow>
                  (let diagram = \<lparr>dg_id = diagram_id,
                          dg_name = el_name (deref g2 container_element) @ '' - Components'',
                          dg_level = COMPONENT, dg_elements = els, dg_relationships = rels,
                          dg_created_at = now1, dg_updated_at = now2\<rparr>
                   in (Inr diagram,
                       g2\<lparr>diagrams := AList.update diagram_id diagram (diagrams g2)\<rparr>))))"

definition add_relationship ::
  "string \<Rightarrow> string \<Rightarrow> string \<Rightarrow> string \<Rightarrow> string \<Rightarrow> datetime \<Rightarrow> generator \<Rightarrow> bool \<times> generator" where
  "add_relationship diagram_id from_element to_element description technology now g =
     (case map_of (diagrams g) diagram_id of
        None \<Rightarrow> (False, g)
      | Some diagram \<Rightarrow>
          (let (rid, g1) = uuid4 g;
               rel = \<lparr>rel_id = rid, rel_from = from_element, rel_to = to_element,
                  rel_description = description, rel_technology = technology\<rparr>;
               diagram' = diagram\<lparr>dg_relationships := dg_relationships diagram @ [rel],
                  dg_updated_at := now\<rparr>
           in (True, g1\<lparr>diagrams := AList.update diagram_id diagram' (diagrams g1)\<rparr>)))"

section \<open>Navigator\<close>

text \<open>
  \<open>_get_next_level\<close>: the successor in the list Context, Container, Component, Code,
  and the level itself for the last one.
\<close>

fun get_next_level :: "C4Level \<Rightarrow> C4Level" where
  "get_next_level CONTEXT = CONTAINER"
| "get_next_level CONTAINER = COMPONENT"
| "get_next_level COMPONENT = CODE"
| "get_next_level CODE = CODE"

text \<open>
  The test of the search loop of \<open>drill_down\<close>:
  \<open>diagram.elements and diagram.elements[0].id == element_id\<close>.
\<close>

definition explores :: "generator \<Rightarrow> string \<Rightarrow> C4Diagram \<Rightarrow> bool" where
  "explores g element_id diagram =
     (case dg_elements diagram of [] \<Rightarrow> False | r # _ \<Rightarrow> el_id (deref g r) = element_id)"

definition child_elements :: "generator \<Rightarrow> string list \<Rightarrow> ref list" where
  "child_elements g ids = List.map_filter (map_of (elements g)) ids"

definition drill_down ::
  "string \<Rightarrow> datetime \<Rightarrow> datetime \<Rightarrow> generator \<Rightarrow> C4Diagram option \<times> generator" where
  "drill_down element_id now1 now2 g =
     (case map_of (elements g) element_id of
        None \<Rightarrow> (None, g)
      | Some element \<Rightarrow>
          if el_children (deref g element) = [] then (None, g)
          else (case find (explores g element_id) (map snd (diagrams g)) of
                  Some diagram \<Rightarrow> (Some diagram, g)
                | None \<Rightarrow>
                    (let chs = child_elements g (el_children (deref g element))
                     in if chs = [] then (None, g)
                        else (let (diagram_id, g1) = uuid4 g;
                                  diagram = \<lparr>dg_id = diagram_id,
                                     dg_name = el_name (deref g element) @ '' - Details'',
                                     dg_level = get_next_level (el_level (deref g element)),
                                     dg_elements = element # chs, dg_relationships = [],
                                     dg_created_at = now1, dg_updated_at = now2\<rparr>
                              in (Some diagram,
                                  g1\<lparr>diagrams := AList.update diagram_id diagram (diagrams g1)\<rparr>)))))"

section \<open>Hierarchy summary and export\<close>

record element_info =
  ei_id :: string
  ei_name :: string
  ei_type :: string
  ei_level :: C4Level
  ei_has_children :: bool
  ei_children :: "string list"

record hierarchy =
  hi_diagram_id :: string
  hi_name :: string
  hi_level :: C4Level
  hi_elements :: "element_info list"

fun hierarchy_loop :: "generator \<Rightarrow> ref list \<Rightarrow> element_info list \<Rightarrow> element_info list" where
  "hierarchy_loop g [] infos = infos"
| "hierarchy_loop g (r # rs) infos =
     hierarchy_loop g rs (infos @
       [\<lparr>ei_id = el_id (deref g r), ei_name = el_name (deref g r), ei_type = el_type (deref g r),
         ei_level = el_level (deref g r),
         ei_has_children = (length (el_children (deref g r)) > 0),
         ei_children = el_children (deref g r)\<rparr>])"

text \<open>\<open>None\<close> is the empty dictionary returned for an unknown diagram.\<close>

definition get_diagram_hierarchy :: "string \<Rightarrow> generator \<Rightarrow> hierarchy option" where
  "get_diagram_hierarchy diagram_id g =
     (case map_of (diagrams g) diagram_id of
        None \<Rightarrow> None
      | Some diagram \<Rightarrow>
          Some \<lparr>hi_diagram_id = diagram_id, hi_name = dg_name diagram,
                hi_level = dg_level diagram,
                hi_elements = hierarchy_loop g (dg_elements diagram) []\<rparr>)"

text \<open>
  The two format strings of \<open>_generate_dot_format\<close>. \<open>CHR 0x22\<close> is the double
  quote and \<open>CHR 0x5C\<close> the backslash: the source writes a backslash followed by
  the letter n between name and type, not a line break.
\<close>

definition node_line :: "C4Element \<Rightarrow> string" where
  "node_line element =
     ''  '' @ [CHR 0x22] @ el_id element @ [CHR 0x22] @ '' [label='' @ [CHR 0x22]
       @ el_name element @ [CHR 0x5C] @ ''n'' @ el_type element @ [CHR 0x22] @ ''];''"

definition edge_line :: "relationship \<Rightarrow> string" where
  "edge_line rel =
     ''  '' @ [CHR 0x22] @ rel_from rel @ [CHR 0x22] @ '' -> '' @ [CHR 0x22] @ rel_to rel
       @ [CHR 0x22] @ '' [label='' @ [CHR 0x22] @ rel_description rel @ [CHR 0x22] @ ''];''"

fun add_nodes :: "generator \<Rightarrow> ref list \<Rightarrow> string list \<Rightarrow> string list" where
  "add_nodes g [] dot_lines = dot_lines"
| "add_nodes g (r # rs) dot_lines = add_nodes g rs (dot_lines @ [node_line (deref g r)])"

fun add_edges :: "relationship list \<Rightarrow> string list \<Rightarrow> string list" where
  "add_edges [] dot_lines = dot_lines"
| "add_edges (rel # rels) dot_lines = add_edges rels (dot_lines @ [edge_line rel])"

definition dot_lines_of :: "generator \<Rightarrow> C4Diagram \<Rightarrow> string list" where
  "dot_lines_of g diagram =
     (let dot_lines = [''digraph G {''];
          dot_lines = dot_lines @ [''  rankdir=TB;''];
          dot_lines = dot_lines @ [''  node [shape=box, style=filled, fillcolor=lightblue];''];
          dot_lines = add_nodes g (dg_elements diagram) dot_lines;
          dot_lines = add_edges (dg_relationships diagram) dot_lines;
          dot_lines = dot_lines @ [''}'']
      in dot_lines)"

text \<open>\<open>"\n".join(lines)\<close>; \<open>CHR 0x0A\<close> is the line break.\<close>

fun join_lines :: "string list \<Rightarrow> string" where
  "join_lines [] = []"
| "join_lines [l] = l"
| "join_lines (l # ls) = l @ [CHR 0x0A] @ join_lines ls"

definition generate_dot_format :: "generator \<Rightarrow> C4Diagram \<Rightarrow> string" where
  "generate_dot_format g diagram = join_lines (dot_lines_of g diagram)"

text \<open>
  \<open>export_diagram\<close>. The structured serialisation \<open>model_dump_json\<close> belongs to the
  model library and is a parameter.
\<close>

definition export_diagram ::
  "(generator \<Rightarrow> C4Diagram \<Rightarrow> string) \<Rightarrow> string \<Rightarrow> string \<Rightarrow> generator \<Rightarrow> string" where
  "export_diagram model_dump_json diagram_id format g =
     (case map_of (diagrams g) diagram_id of
        None \<Rightarrow> []
      | Some diagram \<Rightarrow>
          if format = ''json'' then model_dump_json g diagram
          else if format = ''dot'' then generate_dot_format g diagram
          else model_dump_json g diagram)"

text \<open>
  The edge loop of \<open>generate_plotly_diagram\<close>, restricted to the list \<open>edge_text\<close>
  it builds: a relationship contributes its description only when both
  \<open>next((e for e in diagram.elements if e.id == ...), None)\<close> searches find an element.
\<close>

fun plotly_edge_text :: "generator \<Rightarrow> ref list \<Rightarrow> relationship list \<Rightarrow> string list \<Rightarrow> string list" where
  "plotly_edge_text g els [] edge_text = edge_text"
| "plotly_edge_text g els (rel # rels) edge_text =
     (let from_element = find (\<lambda>r. el_id (deref g r) = rel_from rel) els;
          to_element = find (\<lambda>r. el_id (deref g r) = rel_to rel) els
      in if from_element \<noteq> None \<and> to_element \<noteq> None
         then plotly_edge_text g els rels (edge_text @ [rel_description rel])
         else plotly_edge_text g els rels edge_text)"

section \<open>Sequences of calls\<close>

datatype op =
    CreateContext string string datetime datetime
  | CreateContainer string "child_info list" datetime datetime
  | CreateComponent string "child_info list" datetime datetime
  | AddRelationship string string string string string datetime
  | DrillDown string datetime datetime

fun step :: "op \<Rightarrow> generator \<Rightarrow> generator" where
  "step (CreateContext nm d t1 t2) g = snd (create_context_diagram nm d t1 t2 g)"
| "step (CreateContainer sid infos t1 t2) g = snd (create_container_diagram sid infos t1 t2 g)"
| "step (CreateComponent cid infos t1 t2) g = snd (create_component_diagram cid infos t1 t2 g)"
| "step (AddRelationship did f t d tech t1) g = snd (add_relationship did f t d tech t1 g)"
| "step (DrillDown eid t1 t2) g = snd (drill_down eid t1 t2 g)"

definition run :: "op list \<Rightarrow> generator \<Rightarrow> generator" where
  "run ops g = fold step ops g"

text \<open>
  A concrete identifier source for the scenarios: call number n returns n + 1 letters u.
\<close>

definition unary_uuid :: "nat \<Rightarrow> string" where
  "unary_uuid n = replicate (Suc n) (CHR ''u'')"

definition named :: "string \<Rightarrow> child_info" where
  "named nm = \<lparr>ci_name = Some nm, ci_description = None, ci_technology = None,
     ci_properties = None\<rparr>"

section \<open>Scenario states\<close>

text \<open>
  The state after \<open>create_context_diagram("Payments", "handles billing")\<close> on a new
  generator, and the state after the following
  \<open>create_container_diagram(system_id, [{"name": "API"}, {"name": "Worker"}])\<close>.
\<close>

definition payments_context :: generator where
  "payments_context =
     snd (create_context_diagram ''Payments'' ''handles billing'' 0 0 (init unary_uuid))"

definition payments_containers :: generator where
  "payments_containers =
     snd (create_container_diagram ''u_system'' [named ''API'', named ''Worker''] 1 1
            payments_context)"

text \<open>
  A state written down directly: one element whose \<open>children\<close> names an identifier
  that the element store does not hold, and no diagram.
\<close>

definition orphan_state :: generator where
  "orphan_state =
     \<lparr>diagrams = [],
      elements = [(''p'', 0)],
      heap = [\<lparr>el_id = ''p'', el_name = ''Parent'', el_type = ''System'', el_level = CONTEXT,
               el_description = [], el_technology = Some [], el_relationships = [],
               el_properties = [], el_parent_id = None, el_children = [''ghost'']\<rparr>],
      uuid_source = unary_uuid, uuid_count = 0\<rparr>"

text \<open>
  A state written down directly: the parent names two children, of which only the second
  is in the element store, and there is no diagram.
\<close>

definition half_orphan_state :: generator where
  "half_orphan_state =
     \<lparr>diagrams = [],
      elements = [(''p'', 0), (''c'', 1)],
      heap = [\<lparr>el_id = ''p'', el_name = ''Parent'', el_type = ''System'', el_level = CONTEXT,
               el_description = [], el_technology = Some [], el_relationships = [],
               el_properties = [], el_parent_id = None, el_children = [''ghost'', ''c'']\<rparr>,
              \<lparr>el_id = ''c'', el_name = ''Child'', el_type = ''Container'',
               el_level = CONTAINER, el_description = [], el_technology = Some [],
               el_relationships = [], el_properties = [], el_parent_id = Some ''p'',
               el_children = []\<rparr>],
      uuid_source = unary_uuid, uuid_count = 0\<rparr>"

text \<open>
  The scenario continued with
  \<open>add_relationship(context_diagram_id, "ghost", "nowhere", "calls", "HTTP")\<close>: neither
  end of the new relationship is an element.
\<close>

definition payments_dangling :: generator where
  "payments_dangling =
     snd (add_relationship ''u'' ''ghost'' ''nowhere'' ''calls'' ''HTTP'' 5 payments_containers)"

section \<open>What a successful loop adds\<close>

text \<open>
  The element objects, the relationships and the store entries that the loop of
  \<open>create_container_diagram\<close> / \<open>create_component_diagram\<close> adds for a list of named
  specifications, written as functions of the identifier source \<open>src\<close> and of the
  number \<open>c\<close> of identifiers drawn before the loop. Each iteration draws two
  identifiers, the child's and the relationship's. These describe the result; the
  loop itself is \<open>child_loop\<close>.
\<close>


fun new_children ::
  "string \<Rightarrow> C4Level \<Rightarrow> string \<Rightarrow> (nat \<Rightarrow> string) \<Rightarrow> nat \<Rightarrow> child_info list \<Rightarrow> C4Element list" where
  "new_children knd lvl parent_id src c [] = []"
| "new_children knd lvl parent_id src c (info # infos) =
     \<lparr>el_id = src c, el_name = the (ci_name info), el_type = knd, el_level = lvl,
       el_description = (case ci_description info of None \<Rightarrow> [] | Some d \<Rightarrow> d),
       el_technology = Some (case ci_technology info of None \<Rightarrow> [] | Some t \<Rightarrow> t),
       el_relationships = [],
       el_properties = (case ci_properties info of None \<Rightarrow> [] | Some p \<Rightarrow> p),
       el_parent_id = Some parent_id, el_children = []\<rparr>
     # new_children knd lvl parent_id src (Suc (Suc c)) infos"

fun new_rels :: "string \<Rightarrow> string \<Rightarrow> (nat \<Rightarrow> string) \<Rightarrow> nat \<Rightarrow> child_info list \<Rightarrow> relationship list" where
  "new_rels dsc parent_id src c [] = []"
| "new_rels dsc parent_id src c (info # infos) =
     \<lparr>rel_id = src (Suc c), rel_from = src c, rel_to = parent_id, rel_description = dsc,
       rel_technology = []\<rparr>
     # new_rels dsc parent_id src (Suc (Suc c)) infos"

fun store_all :: "string list \<Rightarrow> ref \<Rightarrow> (string \<times> ref) list \<Rightarrow> (string \<times> ref) list" where
  "store_all [] r al = al"
| "store_all (k # ks) r al = store_all ks (Suc r) (AList.update k r al)"

section \<open>Consistency of the element store\<close>

text \<open>
  Every entry of the element store refers to an existing element object whose \<open>id\<close> is
  the key of the entry.
\<close>


definition store_ok :: "generator \<Rightarrow> bool" where
  "store_ok g = list_all (\<lambda>(k, r). r < length (heap g) \<and> el_id (heap g ! r) = k) (elements g)"

section \<open>The hierarchy invariant\<close>

text \<open>
  The position of a level in the order Context, Container, Component, Code.
  \<open>children_ok rel g\<close> says that for every entry of the element store, every identifier in
  the children list of its element is a key of the store, and the parent element and the
  child element are in the relation \<open>rel\<close>. \<open>hierarchy_inv\<close> is the invariant of the data
  model: each child is exactly one level deeper than its parent and names the parent in
  \<open>parent_id\<close>; \<open>parent_links_ok\<close> is its second half alone.
\<close>

fun level_depth :: "C4Level \<Rightarrow> nat" where
  "level_depth CONTEXT = 0"
| "level_depth CONTAINER = 1"
| "level_depth COMPONENT = 2"
| "level_depth CODE = 3"

definition children_ok :: "(C4Element \<Rightarrow> C4Element \<Rightarrow> bool) \<Rightarrow> generator \<Rightarrow> bool" where
  "children_ok rel g =
     list_all (\<lambda>(k, r).
        list_all (\<lambda>c. case map_of (elements g) c of
                         None \<Rightarrow> False
                       | Some b \<Rightarrow> rel (heap g ! r) (heap g ! b))
          (el_children (heap g ! r)))
       (elements g)"

definition linked :: "C4Element \<Rightarrow> C4Element \<Rightarrow> bool" where
  "linked parent child = (el_parent_id child = Some (el_id parent))"

definition one_deeper :: "C4Element \<Rightarrow> C4Element \<Rightarrow> bool" where
  "one_deeper parent child =
     (level_depth (el_level child) = Suc (level_depth (el_level parent)))"

definition parent_links_ok :: "generator \<Rightarrow> bool" where
  "parent_links_ok g = children_ok linked g"

definition hierarchy_inv :: "generator \<Rightarrow> bool" where
  "hierarchy_inv g = children_ok (\<lambda>parent child. one_deeper parent child \<and> linked parent child) g"

text \<open>
  The identifier source never repeats an identifier, and no identifier is another one
  followed by \<open>_system\<close> (the shape of the identifier of a system element).
\<close>

definition uuid_fresh :: "(nat \<Rightarrow> string) \<Rightarrow> bool" where
  "uuid_fresh src = (inj src \<and> (\<forall>i j. src i @ ''_system'' \<noteq> src j))"

text \<open>
  A call sequence is levelled when every \<open>create_container_diagram\<close> whose anchor exists
  is anchored at a Context-level element and every \<open>create_component_diagram\<close> whose
  anchor exists is anchored at a Container-level element, in the state in which the call
  is made.
\<close>

fun anchor_ok :: "op \<Rightarrow> generator \<Rightarrow> bool" where
  "anchor_ok (CreateContainer sid infos t1 t2) g =
     (case map_of (elements g) sid of None \<Rightarrow> True
      | Some r \<Rightarrow> el_level (heap g ! r) = CONTEXT)"
| "anchor_ok (CreateComponent cid infos t1 t2) g =
     (case map_of (elements g) cid of None \<Rightarrow> True
      | Some r \<Rightarrow> el_level (heap g ! r) = CONTAINER)"
| "anchor_ok _ g = True"

fun anchors_levelled :: "op list \<Rightarrow> generator \<Rightarrow> bool" where
  "anchors_levelled [] g = True"
| "anchors_levelled (op # ops) g = (anchor_ok op g \<and> anchors_levelled ops (step op g))"

text \<open>The invariant carried through the proofs, with the level half switched by a flag.\<close>

definition related :: "bool \<Rightarrow> C4Element \<Rightarrow> C4Element \<Rightarrow> bool" where
  "related lv parent child =
     (linked parent child \<and> (lv \<longrightarrow> one_deeper parent child))"

definition keys_drawn :: "generator \<Rightarrow> bool" where
  "keys_drawn g =
     (\<forall>(k, r) \<in> set (elements g).
        \<exists>i < uuid_count g. k = uuid_source g i \<or> k = uuid_source g i @ ''_system'')"

definition gen_inv :: "(nat \<Rightarrow> string) \<Rightarrow> bool \<Rightarrow> generator \<Rightarrow> bool" where
  "gen_inv src lv g =
     (uuid_source g = src \<and> store_ok g \<and> keys_drawn g \<and> children_ok (related lv) g)"

text \<open>
  The context diagram of the scenario followed by
  \<open>create_component_diagram(system_id, [{"name": "Ledger"}])\<close> on the system element.
\<close>

definition payments_components :: generator where
  "payments_components =
     run [CreateContext ''Payments'' ''handles billing'' 0 0,
          CreateComponent ''u_system'' [named ''Ledger''] 1 1] (init unary_uuid)"

section \<open>Dictionaries\<close>

lemma map_of_update_same: "map_of (AList.update k v al) k = Some v"
  by (simp add: update_conv')

lemma map_of_update_other: "k' \<noteq> k \<Longrightarrow> map_of (AList.update k v al) k' = map_of al k'"
  by (simp add: update_conv')

lemma keys_update_present:
  "map_of al k = Some w \<Longrightarrow> map fst (AList.update k v al) = map fst al"
  by (induction al) (auto split: if_splits)

section \<open>The scenario states, computed\<close>

lemma payments_context_eq:
  "payments_context =
     \<lparr>diagrams =
        [(''u'', \<lparr>dg_id = ''u'', dg_name = ''Payments - Context'', dg_level = CONTEXT,
            dg_elements = [0], dg_relationships = [], dg_created_at = 0,
            dg_updated_at = 0\<rparr>)],
      elements = [(''u_system'', 0)],
      heap =
        [\<lparr>el_id = ''u_system'', el_name = ''Payments'', el_type = ''System'',
            el_level = CONTEXT, el_description = ''handles billing'',
            el_technology = Some [], el_relationships = [], el_properties = [],
            el_parent_id = None, el_children = []\<rparr>],
      uuid_source = unary_uuid, uuid_count = 1\<rparr>"
  by (simp add: payments_context_def create_context_diagram_def init_def uuid4_def
      new_object_def unary_uuid_def Let_def)

lemma payments_containers_eq:
  "payments_containers =
     \<lparr>diagrams =
        [(''u'',
          \<lparr>dg_id = ''u'', dg_name = ''Payments - Context'', dg_level = CONTEXT,
             dg_elements = [0], dg_relationships = [], dg_created_at = 0,
             dg_updated_at = 0\<rparr>),
         (''uu'',
          \<lparr>dg_id = ''uu'', dg_name = ''Payments - Containers'',
             dg_level = CONTAINER, dg_elements = [0, 1, 2],
             dg_relationships =
               [\<lparr>rel_id = ''uuuu'', rel_from = ''uuu'', rel_to = ''u_system'',
                   rel_description = ''deployed on'', rel_technology = []\<rparr>,
                \<lparr>rel_id = ''uuuuuu'', rel_from = ''uuuuu'',
                   rel_to = ''u_system'', rel_description = ''deployed on'',
                   rel_technology = []\<rparr>],
             dg_created_at = 1, dg_updated_at = 1\<rparr>)],
      elements = [(''u_system'', 0), (''uuu'', 1), (''uuuuu'', 2)],
      heap =
        [\<lparr>el_id = ''u_system'', el_name = ''Payments'', el_type = ''System'',
            el_level = CONTEXT, el_description = ''handles billing'',
            el_technology = Some [], el_relationships = [],
            el_properties = [], el_parent_id = None,
            el_children = [''uuu'', ''uuuuu'']\<rparr>,
         \<lparr>el_id = ''uuu'', el_name = ''API'', el_type = ''Container'',
            el_level = CONTAINER, el_description = [],
            el_technology = Some [], el_relationships = [],
            el_properties = [], el_parent_id = Some ''u_system'',
            el_children = []\<rparr>,
         \<lparr>el_id = ''uuuuu'', el_name = ''Worker'', el_type = ''Container'',
            el_level = CONTAINER, el_description = [],
            el_technology = Some [], el_relationships = [],
            el_properties = [], el_parent_id = Some ''u_system'',
            el_children = []\<rparr>],
      uuid_source = unary_uuid, uuid_count = 6\<rparr>"
  by (simp add: payments_containers_def payments_context_eq create_container_diagram_def
      add_child_def children_append_def deref_def named_def
      uuid4_def new_object_def unary_uuid_def Let_def)

section \<open>Drill-down after building the container diagram\<close>

text \<open>
  Claim C1. In the scenario, \<open>create_context_diagram\<close> stores the context diagram under
  the first identifier and \<open>create_container_diagram\<close> returns the container diagram
  with the system and the two containers. The search loop of \<open>drill_down\<close> walks the
  diagrams in insertion order and stops at the first one whose first element is the
  system: that is the context diagram, which holds the system alone, so the call
  returns the context diagram and not the container diagram.
\<close>

theorem drill_down_scenario_returns_context_diagram:
  "fst (create_container_diagram ''u_system'' [named ''API'', named ''Worker''] 1 1
          payments_context) =
     Inr \<lparr>dg_id = ''uu'', dg_name = ''Payments - Containers'',
           dg_level = CONTAINER, dg_elements = [0, 1, 2],
           dg_relationships =
             [\<lparr>rel_id = ''uuuu'', rel_from = ''uuu'', rel_to = ''u_system'',
                 rel_description = ''deployed on'', rel_technology = []\<rparr>,
              \<lparr>rel_id = ''uuuuuu'', rel_from = ''uuuuu'',
                 rel_to = ''u_system'', rel_description = ''deployed on'',
                 rel_technology = []\<rparr>],
           dg_created_at = 1, dg_updated_at = 1\<rparr> \<and>
   fst (drill_down ''u_system'' 2 2 payments_containers) =
     Some \<lparr>dg_id = ''u'', dg_name = ''Payments - Context'', dg_level = CONTEXT,
            dg_elements = [0], dg_relationships = [], dg_created_at = 0,
            dg_updated_at = 0\<rparr> \<and>
   snd (drill_down ''u_system'' 2 2 payments_containers) = payments_containers"
  by (simp add: payments_containers_eq payments_context_eq create_container_diagram_def
      add_child_def children_append_def named_def uuid4_def new_object_def unary_uuid_def
      Let_def drill_down_def explores_def deref_def)

section \<open>Adding a relationship\<close>

text \<open>
  Claim C7. \<open>add_relationship\<close> returns False and leaves the state as it is when the
  diagram identifier is unknown. Otherwise it returns True, the diagram stored under
  that identifier is the old one with one relationship appended (the given from, to,
  description and technology, under a new identifier) and \<open>updated_at\<close> set to the
  current time, every other diagram and the order of the diagrams are as before, and
  the element store and the elements are untouched. Nothing is asked of the two
  element identifiers.
\<close>

theorem add_relationship_spec:
  "(map_of (diagrams g) did = None \<longrightarrow> add_relationship did f t d tech now g = (False, g)) \<and>
   (\<forall>dg. map_of (diagrams g) did = Some dg \<longrightarrow>
      fst (add_relationship did f t d tech now g) = True \<and>
      map_of (diagrams (snd (add_relationship did f t d tech now g))) did =
        Some (dg\<lparr>dg_relationships := dg_relationships dg @
                  [\<lparr>rel_id = uuid_source g (uuid_count g), rel_from = f, rel_to = t,
                    rel_description = d, rel_technology = tech\<rparr>],
                 dg_updated_at := now\<rparr>) \<and>
      (\<forall>k. k \<noteq> did \<longrightarrow>
         map_of (diagrams (snd (add_relationship did f t d tech now g))) k =
           map_of (diagrams g) k) \<and>
      map fst (diagrams (snd (add_relationship did f t d tech now g))) = map fst (diagrams g) \<and>
      elements (snd (add_relationship did f t d tech now g)) = elements g \<and>
      heap (snd (add_relationship did f t d tech now g)) = heap g)"
  by (auto simp: add_relationship_def uuid4_def map_of_update_same map_of_update_other
        keys_update_present)

theorem add_relationship_spec_witness:
  "map_of (diagrams payments_containers) ''zz'' = None \<and>
   add_relationship ''zz'' ''ghost'' ''nowhere'' ''calls'' ''HTTP'' 5 payments_containers =
     (False, payments_containers) \<and>
   map_of (diagrams payments_containers) ''u'' =
     Some \<lparr>dg_id = ''u'', dg_name = ''Payments - Context'', dg_level = CONTEXT,
            dg_elements = [0], dg_relationships = [], dg_created_at = 0,
            dg_updated_at = 0\<rparr> \<and>
   fst (add_relationship ''u'' ''ghost'' ''nowhere'' ''calls'' ''HTTP'' 5 payments_containers) \<and>
   map_of (diagrams (snd (add_relationship ''u'' ''ghost'' ''nowhere'' ''calls'' ''HTTP'' 5
                            payments_containers))) ''u'' =
     Some \<lparr>dg_id = ''u'', dg_name = ''Payments - Context'', dg_level = CONTEXT,
            dg_elements = [0],
            dg_relationships = [\<lparr>rel_id = unary_uuid 6, rel_from = ''ghost'',
               rel_to = ''nowhere'', rel_description = ''calls'', rel_technology = ''HTTP''\<rparr>],
            dg_created_at = 0, dg_updated_at = 5\<rparr>"
  using add_relationship_spec [of payments_containers "''zz''" "''ghost''" "''nowhere''"
      "''calls''" "''HTTP''" 5]
    add_relationship_spec [of payments_containers "''u''" "''ghost''" "''nowhere''"
      "''calls''" "''HTTP''" 5]
  by (simp add: payments_containers_eq)

section \<open>An unknown anchor\<close>

lemma child_loop_error:
  "fst (child_loop knd lvl dsc pid p infos els rels g) = Inl e \<Longrightarrow> e = KeyError ''name''"
proof (induction infos arbitrary: els rels g)
  case Nil
  then show ?case by simp
next
  case (Cons info infos)
  then show ?case
    by (auto simp: uuid4_def split: option.splits prod.splits)
qed

text \<open>
  Claim C4. \<open>create_container_diagram\<close> raises the not-found error (the source's
  \<open>ValueError\<close>) exactly when the system identifier is not a key of the element store,
  and then the element store, the diagram store and the element objects are what they
  were before the call.
\<close>

theorem create_container_diagram_not_found:
  "((\<exists>msg. fst (create_container_diagram sid infos t1 t2 g) = Inl (ValueError msg))
      \<longleftrightarrow> map_of (elements g) sid = None) \<and>
   (map_of (elements g) sid = None \<longrightarrow>
      elements (snd (create_container_diagram sid infos t1 t2 g)) = elements g \<and>
      diagrams (snd (create_container_diagram sid infos t1 t2 g)) = diagrams g \<and>
      heap (snd (create_container_diagram sid infos t1 t2 g)) = heap g)"
proof -
  have a: "map_of (elements g) sid = None \<Longrightarrow>
      create_container_diagram sid infos t1 t2 g =
        (Inl (ValueError (''System element '' @ sid @ '' not found'')),
         g\<lparr>uuid_count := Suc (uuid_count g)\<rparr>)"
    by (simp add: create_container_diagram_def uuid4_def)
  have b: "fst (create_container_diagram sid infos t1 t2 g) \<noteq> Inl (ValueError msg)"
    if "map_of (elements g) sid = Some r" for r msg
  proof (cases "child_loop ''Container'' CONTAINER ''deployed on'' sid r infos [r] []
                  (g\<lparr>uuid_count := Suc (uuid_count g)\<rparr>)")
    case (Pair res g2)
    show ?thesis
    proof (cases res)
      case (Inl e)
      with Pair have "e = KeyError ''name''"
        using child_loop_error [of "''Container''" CONTAINER "''deployed on''" sid r infos
            "[r]" "[]" "g\<lparr>uuid_count := Suc (uuid_count g)\<rparr>" e] by simp
      with Pair Inl that show ?thesis
        by (simp add: create_container_diagram_def uuid4_def)
    next
      case (Inr v)
      with Pair that show ?thesis
        by (simp add: create_container_diagram_def uuid4_def Let_def split: prod.splits)
    qed
  qed
  show ?thesis
  proof (cases "map_of (elements g) sid")
    case None
    with a show ?thesis by simp
  next
    case (Some r)
    with b show ?thesis by auto
  qed
qed

theorem create_container_diagram_not_found_witness:
  "map_of (elements payments_context) ''nope'' = None \<and>
   (\<exists>msg. fst (create_container_diagram ''nope'' [named ''API''] 1 1 payments_context) =
      Inl (ValueError msg)) \<and>
   elements (snd (create_container_diagram ''nope'' [named ''API''] 1 1 payments_context)) =
     elements payments_context \<and>
   diagrams (snd (create_container_diagram ''nope'' [named ''API''] 1 1 payments_context)) =
     diagrams payments_context \<and>
   heap (snd (create_container_diagram ''nope'' [named ''API''] 1 1 payments_context)) =
     heap payments_context"
proof -
  have h: "map_of (elements payments_context) ''nope'' = None"
    by (simp add: payments_context_eq)
  show ?thesis
    using h create_container_diagram_not_found
      [of "''nope''" "[named ''API'']" 1 1 payments_context]
    by simp
qed

section \<open>When drill-down returns nothing\<close>

lemma child_elements_empty_iff:
  "child_elements g ids = [] \<longleftrightarrow> (\<forall>c \<in> set ids. map_of (elements g) c = None)"
  by (auto simp: child_elements_def List.map_filter_def filter_empty_conv)

text \<open>
  Claim C5, as the code has it. \<open>drill_down\<close> returns None exactly when the element is
  unknown, or its children list is empty, or no stored diagram starts with the element
  and none of the listed children is in the element store. When no stored diagram
  starts with the element and at least one child is in the element store, the new
  diagram lists the element followed by the children that are in the store, in order;
  the others are skipped.
\<close>

theorem drill_down_none_iff:
  "(fst (drill_down eid t1 t2 g) = None \<longleftrightarrow>
      (map_of (elements g) eid = None \<or>
       (\<exists>r. map_of (elements g) eid = Some r \<and>
          (el_children (deref g r) = [] \<or>
           (find (explores g eid) (map snd (diagrams g)) = None \<and>
            (\<forall>c \<in> set (el_children (deref g r)). map_of (elements g) c = None)))))) \<and>
   (\<forall>r. map_of (elements g) eid = Some r \<longrightarrow>
      find (explores g eid) (map snd (diagrams g)) = None \<longrightarrow>
      (\<exists>c \<in> set (el_children (deref g r)). map_of (elements g) c \<noteq> None) \<longrightarrow>
      map_option dg_elements (fst (drill_down eid t1 t2 g)) =
        Some (r # map (\<lambda>c. the (map_of (elements g) c))
                    (filter (\<lambda>c. map_of (elements g) c \<noteq> None) (el_children (deref g r)))))"
proof (cases "map_of (elements g) eid")
  case None
  then show ?thesis by (simp add: drill_down_def)
next
  case (Some r)
  show ?thesis
  proof (cases "el_children (deref g r) = []")
    case True
    with Some show ?thesis by (simp add: drill_down_def)
  next
    case False
    show ?thesis
    proof (cases "find (explores g eid) (map snd (diagrams g))")
      case (Some d)
      with False \<open>map_of (elements g) eid = Some r\<close> show ?thesis
        by (simp add: drill_down_def)
    next
      case None
      show ?thesis
      proof (cases "child_elements g (el_children (deref g r)) = []")
        case True
        with None False \<open>map_of (elements g) eid = Some r\<close> show ?thesis
          using child_elements_empty_iff [of g "el_children (deref g r)"]
          by (simp add: drill_down_def)
      next
        case nonempty: False
        with None False \<open>map_of (elements g) eid = Some r\<close> show ?thesis
          using child_elements_empty_iff [of g "el_children (deref g r)"]
          by (simp add: drill_down_def uuid4_def Let_def)
            (simp add: child_elements_def List.map_filter_def comp_def)
      qed
    qed
  qed
qed

theorem drill_down_none_iff_witness:
  "map_of (elements half_orphan_state) ''p'' = Some 0 \<and>
   find (explores half_orphan_state ''p'') (map snd (diagrams half_orphan_state)) = None \<and>
   el_children (deref half_orphan_state 0) = [''ghost'', ''c''] \<and>
   map_of (elements half_orphan_state) ''ghost'' = None \<and>
   map_of (elements half_orphan_state) ''c'' = Some 1 \<and>
   fst (drill_down ''p'' 0 0 half_orphan_state) \<noteq> None \<and>
   map_option dg_elements (fst (drill_down ''p'' 0 0 half_orphan_state)) = Some [0, 1]"
  using drill_down_none_iff [of "''p''" 0 0 half_orphan_state]
  by (simp add: half_orphan_state_def deref_def)

theorem drill_down_orphan_counterexample:
  "map_of (elements orphan_state) ''p'' = Some 0 \<and>
   el_children (deref orphan_state 0) = [''ghost''] \<and>
   fst (drill_down ''p'' 0 0 orphan_state) = None"
  by (simp add: orphan_state_def drill_down_def deref_def child_elements_def
      List.map_filter_def)

section \<open>Export in the graph-description format\<close>

lemma add_nodes_eq: "add_nodes g rs ls = ls @ map (\<lambda>r. node_line (deref g r)) rs"
  by (induction rs arbitrary: ls) simp_all

lemma add_edges_eq: "add_edges rels ls = ls @ map edge_line rels"
  by (induction rels arbitrary: ls) simp_all

lemma find_None_image: "(find (\<lambda>r. f r = k) xs \<noteq> None) = (k \<in> f ` set xs)"
  by (auto simp: find_None_iff)

lemma plotly_edge_text_eq:
  "plotly_edge_text g els rels acc =
     acc @ map rel_description
       (filter (\<lambda>rel. rel_from rel \<in> (\<lambda>r. el_id (deref g r)) ` set els \<and>
                      rel_to rel \<in> (\<lambda>r. el_id (deref g r)) ` set els) rels)"
  by (induction rels arbitrary: acc) (simp_all add: find_None_image Let_def del: not_None_eq)

lemma payments_dangling_eq:
  "payments_dangling =
     payments_containers\<lparr>diagrams :=
        [(''u'',
          \<lparr>dg_id = ''u'', dg_name = ''Payments - Context'', dg_level = CONTEXT,
             dg_elements = [0],
             dg_relationships = [\<lparr>rel_id = unary_uuid 6, rel_from = ''ghost'',
                rel_to = ''nowhere'', rel_description = ''calls'', rel_technology = ''HTTP''\<rparr>],
             dg_created_at = 0, dg_updated_at = 5\<rparr>),
         (''uu'', the (map_of (diagrams payments_containers) ''uu''))],
        uuid_count := 7\<rparr>"
  by (simp add: payments_dangling_def payments_containers_eq add_relationship_def uuid4_def)

lemma join_lines_cons:
  "ls \<noteq> [] \<Longrightarrow> join_lines (l # ls) = l @ [CHR 0x0A] @ join_lines ls"
  by (cases ls) simp_all

lemma join_lines_snoc:
  "join_lines (ls @ [l]) = concat (map (\<lambda>x. x @ [CHR 0x0A]) ls) @ l"
  by (induction ls) (simp_all add: join_lines_cons)

text \<open>
  Claim C10. For a stored diagram, the text exported in the format \<open>dot\<close> is the three
  header lines, then one node line for each element of the diagram, in order, then one
  edge line for each relationship of the diagram, in order and whatever its two ends
  are, each of these lines followed by a line break, and then the closing brace. The
  lines built by \<open>_generate_dot_format\<close> are these, so their number is four plus the
  number of elements plus the number of relationships. The visual renderer, in
  contrast, keeps the description of a relationship only when both ends are
  identifiers of elements of the diagram.
\<close>

theorem export_dot_lines:
  "map_of (diagrams g) did = Some d \<Longrightarrow>
   export_diagram dump did ''dot'' g =
     ''digraph G {'' @ [CHR 0x0A]
     @ ''  rankdir=TB;'' @ [CHR 0x0A]
     @ ''  node [shape=box, style=filled, fillcolor=lightblue];'' @ [CHR 0x0A]
     @ concat (map (\<lambda>r. node_line (deref g r) @ [CHR 0x0A]) (dg_elements d))
     @ concat (map (\<lambda>rel. edge_line rel @ [CHR 0x0A]) (dg_relationships d))
     @ ''}'' \<and>
   dot_lines_of g d =
     [''digraph G {'', ''  rankdir=TB;'',
      ''  node [shape=box, style=filled, fillcolor=lightblue];'']
     @ map (\<lambda>r. node_line (deref g r)) (dg_elements d)
     @ map edge_line (dg_relationships d)
     @ [''}''] \<and>
   length (dot_lines_of g d) = 4 + length (dg_elements d) + length (dg_relationships d) \<and>
   plotly_edge_text g (dg_elements d) (dg_relationships d) [] =
     map rel_description
       (filter (\<lambda>rel. rel_from rel \<in> (\<lambda>r. el_id (deref g r)) ` set (dg_elements d) \<and>
                      rel_to rel \<in> (\<lambda>r. el_id (deref g r)) ` set (dg_elements d))
          (dg_relationships d))"
proof -
  assume lk: "map_of (diagrams g) did = Some d"
  let ?hdr = "[''digraph G {'', ''  rankdir=TB;'',
      ''  node [shape=box, style=filled, fillcolor=lightblue];'']"
  let ?body = "?hdr @ map (\<lambda>r. node_line (deref g r)) (dg_elements d)
                 @ map edge_line (dg_relationships d)"
  have ls: "dot_lines_of g d = ?body @ [''}'']"
    by (simp add: dot_lines_of_def add_nodes_eq add_edges_eq)
  have "export_diagram dump did ''dot'' g = join_lines (?body @ [''}''])"
    using lk ls by (simp add: export_diagram_def generate_dot_format_def)
  also have "\<dots> = concat (map (\<lambda>x. x @ [CHR 0x0A]) ?body) @ ''}''"
    by (rule join_lines_snoc)
  finally have out: "export_diagram dump did ''dot'' g =
      concat (map (\<lambda>x. x @ [CHR 0x0A]) ?body) @ ''}''" .
  show ?thesis
    using ls by (simp add: out plotly_edge_text_eq comp_def)
qed

theorem export_dot_lines_witness:
  "map_of (diagrams payments_dangling) ''u'' =
     Some \<lparr>dg_id = ''u'', dg_name = ''Payments - Context'', dg_level = CONTEXT,
            dg_elements = [0],
            dg_relationships = [\<lparr>rel_id = unary_uuid 6, rel_from = ''ghost'',
               rel_to = ''nowhere'', rel_description = ''calls'', rel_technology = ''HTTP''\<rparr>],
            dg_created_at = 0, dg_updated_at = 5\<rparr> \<and>
   export_diagram (\<lambda>g d. ''{}'') ''u'' ''dot'' payments_dangling =
     ''digraph G {'' @ [CHR 0x0A]
     @ ''  rankdir=TB;'' @ [CHR 0x0A]
     @ ''  node [shape=box, style=filled, fillcolor=lightblue];'' @ [CHR 0x0A]
     @ ''  '' @ [CHR 0x22] @ ''u_system'' @ [CHR 0x22] @ '' [label='' @ [CHR 0x22]
         @ ''Payments'' @ [CHR 0x5C] @ ''nSystem'' @ [CHR 0x22] @ ''];'' @ [CHR 0x0A]
     @ ''  '' @ [CHR 0x22] @ ''ghost'' @ [CHR 0x22] @ '' -> '' @ [CHR 0x22] @ ''nowhere''
         @ [CHR 0x22] @ '' [label='' @ [CHR 0x22] @ ''calls'' @ [CHR 0x22] @ ''];''
         @ [CHR 0x0A]
     @ ''}'' \<and>
   plotly_edge_text payments_dangling [0]
     [\<lparr>rel_id = unary_uuid 6, rel_from = ''ghost'', rel_to = ''nowhere'',
       rel_description = ''calls'', rel_technology = ''HTTP''\<rparr>] [] = []"
proof -
  have h: "map_of (diagrams payments_dangling) ''u'' =
     Some \<lparr>dg_id = ''u'', dg_name = ''Payments - Context'', dg_level = CONTEXT,
            dg_elements = [0],
            dg_relationships = [\<lparr>rel_id = unary_uuid 6, rel_from = ''ghost'',
               rel_to = ''nowhere'', rel_description = ''calls'', rel_technology = ''HTTP''\<rparr>],
            dg_created_at = 0, dg_updated_at = 5\<rparr>"
    by (simp add: payments_dangling_eq)
  have e: "deref payments_dangling 0 =
      \<lparr>el_id = ''u_system'', el_name = ''Payments'', el_type = ''System'',
        el_level = CONTEXT, el_description = ''handles billing'',
        el_technology = Some [], el_relationships = [],
        el_properties = [], el_parent_id = None,
        el_children = [''uuu'', ''uuuuu'']\<rparr>"
    by (simp add: payments_dangling_eq payments_containers_eq deref_def)
  show ?thesis
    using h export_dot_lines [OF h, of "\<lambda>g d. ''{}''"]
    by (simp add: e node_line_def edge_line_def)
qed

section \<open>The loop in closed form\<close>

lemma add_child_eq:
  "p < length (heap g) \<Longrightarrow>
   add_child knd lvl dsc pid p cid nm info g =
     (length (heap g),
      \<lparr>rel_id = uuid_source g (uuid_count g), rel_from = cid, rel_to = pid,
        rel_description = dsc, rel_technology = []\<rparr>,
      g\<lparr>heap := (heap g)[p := (heap g ! p)\<lparr>el_children := el_children (heap g ! p) @ [cid]\<rparr>]
             @ [\<lparr>el_id = cid, el_name = nm, el_type = knd, el_level = lvl,
                 el_description = (case ci_description info of None \<Rightarrow> [] | Some d \<Rightarrow> d),
                 el_technology = Some (case ci_technology info of None \<Rightarrow> [] | Some t \<Rightarrow> t),
                 el_relationships = [],
                 el_properties = (case ci_properties info of None \<Rightarrow> [] | Some p \<Rightarrow> p),
                 el_parent_id = Some pid, el_children = []\<rparr>],
        elements := AList.update cid (length (heap g)) (elements g),
        uuid_count := Suc (uuid_count g)\<rparr>)"
  by (simp add: add_child_def new_object_def uuid4_def children_append_def Let_def
      nth_append list_update_append1)

lemma length_new_children [simp]: "length (new_children knd lvl pid src c infos) = length infos"
  by (induction infos arbitrary: c) simp_all

lemma upt_head: "[n..<Suc (n + k)] = n # [Suc n..<Suc (n + k)]"
  by (simp add: upt_rec)

lemma child_loop_eq:
  "list_all (\<lambda>i. ci_name i \<noteq> None) infos \<Longrightarrow> p < length (heap g) \<Longrightarrow>
   child_loop knd lvl dsc pid p infos els rels g =
     (Inr (els @ [length (heap g)..<length (heap g) + length infos],
           rels @ new_rels dsc pid (uuid_source g) (uuid_count g) infos),
      g\<lparr>heap := (heap g)[p := (heap g ! p)\<lparr>el_children := el_children (heap g ! p)
               @ map el_id (new_children knd lvl pid (uuid_source g) (uuid_count g) infos)\<rparr>]
             @ new_children knd lvl pid (uuid_source g) (uuid_count g) infos,
        elements := store_all (map el_id (new_children knd lvl pid (uuid_source g) (uuid_count g) infos))
                      (length (heap g)) (elements g),
        uuid_count := uuid_count g + 2 * length infos\<rparr>)"
proof (induction infos arbitrary: els rels g)
  case Nil
  then show ?case by simp
next
  case (Cons info infos)
  from Cons.prems obtain nm where nm: "ci_name info = Some nm" by auto
  from Cons.prems have rest: "list_all (\<lambda>i. ci_name i \<noteq> None) infos" by simp
  let ?g1 = "g\<lparr>uuid_count := Suc (uuid_count g)\<rparr>"
  have p1: "p < length (heap ?g1)" using Cons.prems by simp
  obtain r rel g2 where step: "add_child knd lvl dsc pid p (uuid_source g (uuid_count g)) nm info ?g1 = (r, rel, g2)"
    by (metis prod_cases3)
  from step have r: "r = length (heap g)"
    and rel: "rel = \<lparr>rel_id = uuid_source g (Suc (uuid_count g)), rel_from = uuid_source g (uuid_count g),
        rel_to = pid, rel_description = dsc, rel_technology = []\<rparr>"
    and g2: "g2 = g\<lparr>heap := (heap g)[p := (heap g ! p)\<lparr>el_children := el_children (heap g ! p) @ [uuid_source g (uuid_count g)]\<rparr>]
             @ [hd (new_children knd lvl pid (uuid_source g) (uuid_count g) (info # infos))],
        elements := AList.update (uuid_source g (uuid_count g)) (length (heap g)) (elements g),
        uuid_count := Suc (Suc (uuid_count g))\<rparr>"
    using nm by (auto simp: add_child_eq [OF p1])
  have p2: "p < length (heap g2)" using Cons.prems by (simp add: g2)
  have eq1: "child_loop knd lvl dsc pid p (info # infos) els rels g =
        child_loop knd lvl dsc pid p infos (els @ [r]) (rels @ [rel]) g2"
    using nm step by (simp add: uuid4_def)
  show ?case
    using Cons.prems(2)
    by (simp only: eq1 Cons.IH [OF rest p2])
      (simp add: g2 r rel nm upt_head nth_append list_update_append1 del: upt_Suc)
qed


lemma new_children_names:
  "map el_name (new_children knd lvl pid src c infos) = map (\<lambda>i. the (ci_name i)) infos"
  by (induction infos arbitrary: c) simp_all

lemma new_children_levels:
  "map el_level (new_children knd lvl pid src c infos) = replicate (length infos) lvl"
  by (induction infos arbitrary: c) simp_all

lemma new_children_types:
  "map el_type (new_children knd lvl pid src c infos) = replicate (length infos) knd"
  by (induction infos arbitrary: c) simp_all

lemma new_children_parents:
  "map el_parent_id (new_children knd lvl pid src c infos) = replicate (length infos) (Some pid)"
  by (induction infos arbitrary: c) simp_all

lemma new_children_leaves:
  "map el_children (new_children knd lvl pid src c infos) = replicate (length infos) []"
  by (induction infos arbitrary: c) simp_all

lemma new_rels_from:
  "map rel_from (new_rels dsc pid src c infos) = map el_id (new_children knd lvl pid src c infos)"
  by (induction infos arbitrary: c) simp_all

lemma new_rels_to:
  "map rel_to (new_rels dsc pid src c infos) = replicate (length infos) pid"
  by (induction infos arbitrary: c) simp_all

lemma new_rels_description:
  "map rel_description (new_rels dsc pid src c infos) = replicate (length infos) dsc"
  by (induction infos arbitrary: c) simp_all

lemma deref_eta: "deref g = (!) (heap g)"
  by (rule ext) (simp add: deref_def)

lemma map_nth_appended: "map ((!) (xs @ ys)) [length xs..<length xs + length ys] = ys"
  by (rule nth_equalityI) (simp_all add: nth_append)

lemma create_container_diagram_eq:
  assumes "map_of (elements g) sid = Some p" and "p < length (heap g)"
    and "list_all (\<lambda>i. ci_name i \<noteq> None) infos"
  shows "create_container_diagram sid infos t1 t2 g =
    (let new = new_children ''Container'' CONTAINER sid (uuid_source g) (Suc (uuid_count g)) infos;
         d = \<lparr>dg_id = uuid_source g (uuid_count g),
               dg_name = el_name (heap g ! p) @ '' - Containers'', dg_level = CONTAINER,
               dg_elements = p # [length (heap g)..<length (heap g) + length infos],
               dg_relationships =
                 new_rels ''deployed on'' sid (uuid_source g) (Suc (uuid_count g)) infos,
               dg_created_at = t1, dg_updated_at = t2\<rparr>
     in (Inr d,
         g\<lparr>heap := (heap g)[p := (heap g ! p)\<lparr>el_children :=
                       el_children (heap g ! p) @ map el_id new\<rparr>] @ new,
           elements := store_all (map el_id new) (length (heap g)) (elements g),
           uuid_count := Suc (uuid_count g) + 2 * length infos,
           diagrams := AList.update (uuid_source g (uuid_count g)) d (diagrams g)\<rparr>))"
proof -
  let ?g1 = "g\<lparr>uuid_count := Suc (uuid_count g)\<rparr>"
  have p1: "p < length (heap ?g1)" using assms(2) by simp
  note loop = child_loop_eq [OF assms(3) p1, of "''Container''" CONTAINER "''deployed on''" sid "[p]" "[]"]
  have lk: "map_of (elements ?g1) sid = Some p" using assms(1) by simp
  show ?thesis
    unfolding create_container_diagram_def uuid4_def Let_def prod.case lk option.case loop
      sum.case deref_def
    using assms(2) by (simp add: nth_append)
qed

lemma create_component_diagram_eq:
  assumes "map_of (elements g) cid = Some p" and "p < length (heap g)"
    and "list_all (\<lambda>i. ci_name i \<noteq> None) infos"
  shows "create_component_diagram cid infos t1 t2 g =
    (let new = new_children ''Component'' COMPONENT cid (uuid_source g) (Suc (uuid_count g)) infos;
         d = \<lparr>dg_id = uuid_source g (uuid_count g),
               dg_name = el_name (heap g ! p) @ '' - Components'', dg_level = COMPONENT,
               dg_elements = p # [length (heap g)..<length (heap g) + length infos],
               dg_relationships =
                 new_rels ''part of'' cid (uuid_source g) (Suc (uuid_count g)) infos,
               dg_created_at = t1, dg_updated_at = t2\<rparr>
     in (Inr d,
         g\<lparr>heap := (heap g)[p := (heap g ! p)\<lparr>el_children :=
                       el_children (heap g ! p) @ map el_id new\<rparr>] @ new,
           elements := store_all (map el_id new) (length (heap g)) (elements g),
           uuid_count := Suc (uuid_count g) + 2 * length infos,
           diagrams := AList.update (uuid_source g (uuid_count g)) d (diagrams g)\<rparr>))"
proof -
  let ?g1 = "g\<lparr>uuid_count := Suc (uuid_count g)\<rparr>"
  have p1: "p < length (heap ?g1)" using assms(2) by simp
  note loop = child_loop_eq [OF assms(3) p1, of "''Component''" COMPONENT "''part of''" cid "[p]" "[]"]
  have lk: "map_of (elements ?g1) cid = Some p" using assms(1) by simp
  show ?thesis
    unfolding create_component_diagram_def uuid4_def Let_def prod.case lk option.case loop
      sum.case deref_def
    using assms(2) by (simp add: nth_append)
qed

text \<open>
  Claim C3. For a system identifier that the element store resolves to an element
  object, and container specifications that all carry a name, \<open>create_container_diagram\<close>
  succeeds. The new element objects are one per specification, in request order, with the
  specification's name, level CONTAINER, type Container and the system as parent. The
  returned diagram lists the parent followed by the new elements, and holds one
  relationship per new container, in the same order, from the container to the system,
  described as deployed on. The parent's children list is the old list followed by the
  identifiers of the new containers, so it grows by the number of specifications.
\<close>

theorem create_container_diagram_spec:
  assumes "map_of (elements g) sid = Some p" and "p < length (heap g)"
    and "list_all (\<lambda>i. ci_name i \<noteq> None) infos"
  shows "\<exists>d g' new.
     create_container_diagram sid infos t1 t2 g = (Inr d, g') \<and>
     new = new_children ''Container'' CONTAINER sid (uuid_source g) (Suc (uuid_count g)) infos \<and>
     length new = length infos \<and>
     map el_name new = map (\<lambda>i. the (ci_name i)) infos \<and>
     map el_level new = replicate (length infos) CONTAINER \<and>
     map el_type new = replicate (length infos) ''Container'' \<and>
     map el_parent_id new = replicate (length infos) (Some sid) \<and>
     dg_elements d = p # [length (heap g)..<length (heap g) + length infos] \<and>
     map (deref g') (dg_elements d) = deref g' p # new \<and>
     dg_relationships d =
       new_rels ''deployed on'' sid (uuid_source g) (Suc (uuid_count g)) infos \<and>
     length (dg_relationships d) = length infos \<and>
     map rel_from (dg_relationships d) = map el_id new \<and>
     map rel_to (dg_relationships d) = replicate (length infos) sid \<and>
     map rel_description (dg_relationships d) = replicate (length infos) ''deployed on'' \<and>
     el_children (deref g' p) = el_children (deref g p) @ map el_id new \<and>
     length (el_children (deref g' p)) = length (el_children (deref g p)) + length infos"
proof -
  let ?new = "new_children ''Container'' CONTAINER sid (uuid_source g) (Suc (uuid_count g)) infos"
  let ?h = "(heap g)[p := (heap g ! p)\<lparr>el_children := el_children (heap g ! p) @ map el_id ?new\<rparr>]"
  have len: "length ?h = length (heap g)" by simp
  have "map ((!) (?h @ ?new)) [length ?h..<length ?h + length ?new] = ?new"
    by (rule map_nth_appended)
  then have news: "map ((!) (?h @ ?new)) [length (heap g)..<length (heap g) + length infos] = ?new"
    by simp
  have rl: "length (new_rels ''deployed on'' sid (uuid_source g) (Suc (uuid_count g)) infos) = length infos"
    using arg_cong [OF new_rels_to [of "''deployed on''" sid "uuid_source g" "Suc (uuid_count g)" infos], of length]
    by simp
  show ?thesis
    using assms(2) news rl
    by (simp add: create_container_diagram_eq [OF assms] Let_def deref_eta nth_append
        new_children_names new_children_levels new_children_types new_children_parents
        new_rels_to new_rels_description
        new_rels_from [of _ _ _ _ _ "''Container''" CONTAINER] del: upt_Suc)
qed


lemma named_has_name: "ci_name (named nm) = Some nm"
  by (simp add: named_def)

theorem create_container_diagram_spec_witness:
  "map_of (elements payments_context) ''u_system'' = Some 0 \<and>
   0 < length (heap payments_context) \<and>
   list_all (\<lambda>i. ci_name i \<noteq> None) [named ''API'', named ''Worker''] \<and>
   (case create_container_diagram ''u_system'' [named ''API'', named ''Worker''] 1 1
           payments_context of
      (Inl e, g') \<Rightarrow> False
    | (Inr d, g') \<Rightarrow>
        dg_elements d = [0, 1, 2] \<and>
        map el_name (map (deref g') (tl (dg_elements d))) = [''API'', ''Worker''] \<and>
        map el_level (map (deref g') (tl (dg_elements d))) = [CONTAINER, CONTAINER] \<and>
        map el_parent_id (map (deref g') (tl (dg_elements d))) =
          [Some ''u_system'', Some ''u_system''] \<and>
        map rel_from (dg_relationships d) = map el_id (map (deref g') (tl (dg_elements d))) \<and>
        map rel_to (dg_relationships d) = [''u_system'', ''u_system''] \<and>
        map rel_description (dg_relationships d) = [''deployed on'', ''deployed on''] \<and>
        el_children (deref g' 0) = map el_id (map (deref g') (tl (dg_elements d))))"
proof -
  have h1: "map_of (elements payments_context) ''u_system'' = Some 0"
    by (simp add: payments_context_eq)
  have h2: "0 < length (heap payments_context)"
    by (simp add: payments_context_eq)
  have h3: "list_all (\<lambda>i. ci_name i \<noteq> None) [named ''API'', named ''Worker'']"
    by (simp add: named_has_name)
  have c: "el_children (deref payments_context 0) = []"
    by (simp add: payments_context_eq deref_def)
  from create_container_diagram_spec [OF h1 h2 h3, of 1 1]
  obtain d g' new where
    r: "create_container_diagram ''u_system'' [named ''API'', named ''Worker''] 1 1
        payments_context = (Inr d, g')"
    and f: "length new = length [named ''API'', named ''Worker'']"
    "map el_name new = map (\<lambda>i. the (ci_name i)) [named ''API'', named ''Worker'']"
    "map el_level new = replicate (length [named ''API'', named ''Worker'']) CONTAINER"
    "map el_parent_id new =
       replicate (length [named ''API'', named ''Worker'']) (Some ''u_system'')"
    "dg_elements d = 0 # [length (heap payments_context)..<length (heap payments_context)
        + length [named ''API'', named ''Worker'']]"
    "map (deref g') (dg_elements d) = deref g' 0 # new"
    "map rel_from (dg_relationships d) = map el_id new"
    "map rel_to (dg_relationships d) =
       replicate (length [named ''API'', named ''Worker'']) ''u_system''"
    "map rel_description (dg_relationships d) =
       replicate (length [named ''API'', named ''Worker'']) ''deployed on''"
    "el_children (deref g' 0) = el_children (deref payments_context 0) @ map el_id new"
    by (elim exE conjE)
  from f(5,6) have tl: "map (deref g') (tl (dg_elements d)) = new" by simp
  have els: "dg_elements d = [0, 1, 2]"
    using f(5) by (simp add: payments_context_eq upt_rec eval_nat_numeral)
  from tl els have tl': "map (deref g') [1, 2] = new" by simp
  show ?thesis
    using h1 h2 h3 f(1,2,3,4,7,8,9,10) c r els tl'
    by (auto simp: named_has_name)
qed

section \<open>Diagrams share the element objects\<close>

lemma grown_heap_nth:
  "r < length h \<Longrightarrow>
   (h[p := (h ! p)\<lparr>el_children := el_children (h ! p) @ ids\<rparr>] @ new) ! r =
     (if r = p then (h ! r)\<lparr>el_children := el_children (h ! r) @ ids\<rparr> else h ! r)"
  by (simp add: nth_append nth_list_update)

text \<open>
  Claim C9, as the code has it. A diagram holds references to the element objects of the
  element store, not copies. After a later successful \<open>create_container_diagram\<close> or
  \<open>create_component_diagram\<close> on an existing anchor, every element seen through the
  references of an earlier diagram is as before, except the anchor: seen through the
  diagram, its children list is the old list followed by the identifiers of the new
  children, and its other fields are as before.
\<close>

theorem later_children_seen_through_diagram:
  assumes "map_of (elements g) aid = Some p" and "p < length (heap g)"
    and "list_all (\<lambda>i. ci_name i \<noteq> None) infos"
    and "list_all (\<lambda>r. r < length (heap g)) (dg_elements d)"
  shows
    "map (deref (snd (create_container_diagram aid infos t1 t2 g))) (dg_elements d) =
       map (\<lambda>r. if r = p
                then (deref g r)\<lparr>el_children := el_children (deref g r) @
                       map el_id (new_children ''Container'' CONTAINER aid (uuid_source g)
                                    (Suc (uuid_count g)) infos)\<rparr>
                else deref g r) (dg_elements d) \<and>
     map (deref (snd (create_component_diagram aid infos t1 t2 g))) (dg_elements d) =
       map (\<lambda>r. if r = p
                then (deref g r)\<lparr>el_children := el_children (deref g r) @
                       map el_id (new_children ''Component'' COMPONENT aid (uuid_source g)
                                    (Suc (uuid_count g)) infos)\<rparr>
                else deref g r) (dg_elements d)"
  using assms(4)
  by (simp add: create_container_diagram_eq [OF assms(1,2,3)]
      create_component_diagram_eq [OF assms(1,2,3)] Let_def deref_def list_all_iff
      grown_heap_nth)

theorem later_children_seen_through_diagram_witness:
  "map_of (elements payments_context) ''u_system'' = Some 0 \<and>
   0 < length (heap payments_context) \<and>
   list_all (\<lambda>i. ci_name i \<noteq> None) [named ''API'', named ''Worker''] \<and>
   list_all (\<lambda>r. r < length (heap payments_context))
     (dg_elements (the (map_of (diagrams payments_context) ''u''))) \<and>
   map (deref (snd (create_container_diagram ''u_system'' [named ''API'', named ''Worker'']
                      1 1 payments_context)))
     (dg_elements (the (map_of (diagrams payments_context) ''u''))) =
     [(deref payments_context 0)\<lparr>el_children := [unary_uuid 2, unary_uuid 4]\<rparr>]"
proof -
  have h1: "map_of (elements payments_context) ''u_system'' = Some 0"
    by (simp add: payments_context_eq)
  have h2: "0 < length (heap payments_context)"
    by (simp add: payments_context_eq)
  have h3: "list_all (\<lambda>i. ci_name i \<noteq> None) [named ''API'', named ''Worker'']"
    by (simp add: named_has_name)
  have h4: "list_all (\<lambda>r. r < length (heap payments_context))
     (dg_elements (the (map_of (diagrams payments_context) ''u'')))"
    by (simp add: payments_context_eq)
  have c: "el_children (deref payments_context 0) = []"
      "dg_elements (the (map_of (diagrams payments_context) ''u'')) = [0]"
      "uuid_source payments_context = unary_uuid" "uuid_count payments_context = 1"
    by (simp_all add: payments_context_eq deref_def)
  show ?thesis
    using h1 h2 h3 h4 later_children_seen_through_diagram [OF h1 h2 h3 h4, of 1 1]
    by (simp add: c eval_nat_numeral)
qed

theorem snapshot_counterexample:
  "fst (create_context_diagram ''Payments'' ''handles billing'' 0 0 (init unary_uuid)) =
     \<lparr>dg_id = ''u'', dg_name = ''Payments - Context'', dg_level = CONTEXT,
       dg_elements = [0], dg_relationships = [], dg_created_at = 0, dg_updated_at = 0\<rparr> \<and>
   el_children (deref payments_context 0) = [] \<and>
   el_children (deref payments_containers 0) = [''uuu'', ''uuuuu''] \<and>
   map ei_has_children (hi_elements (the (get_diagram_hierarchy ''u'' payments_context)))
     = [False] \<and>
   map ei_has_children (hi_elements (the (get_diagram_hierarchy ''u'' payments_containers)))
     = [True]"
  by (simp add: payments_context_eq payments_containers_eq deref_def get_diagram_hierarchy_def
      create_context_diagram_def init_def uuid4_def new_object_def unary_uuid_def Let_def)

section \<open>The element store stays consistent\<close>

lemma set_update_subset: "set (AList.update k v al) \<subseteq> insert (k, v) (set al)"
  by (induction al) auto

lemma store_okD:
  "store_ok g \<Longrightarrow> map_of (elements g) k = Some r \<Longrightarrow> r < length (heap g) \<and> el_id (heap g ! r) = k"
  by (auto simp: store_ok_def list_all_iff dest: map_of_SomeD)

lemma store_ok_count [simp]: "store_ok (g\<lparr>uuid_count := n\<rparr>) = store_ok g"
  by (simp add: store_ok_def)

lemma store_ok_diagrams [simp]: "store_ok (g\<lparr>diagrams := ds\<rparr>) = store_ok g"
  by (simp add: store_ok_def)

lemma store_ok_init: "store_ok (init src)"
  by (simp add: store_ok_def init_def)

lemma store_okI:
  "(\<And>k r. (k, r) \<in> set (elements g) \<Longrightarrow> r < length (heap g) \<and> el_id (heap g ! r) = k)
   \<Longrightarrow> store_ok g"
  by (auto simp: store_ok_def list_all_iff)

lemma store_ok_entry:
  "store_ok g \<Longrightarrow> (k, r) \<in> set (elements g) \<Longrightarrow> r < length (heap g) \<and> el_id (heap g ! r) = k"
  by (auto simp: store_ok_def list_all_iff)

lemma update_entry:
  "(k', r) \<in> set (AList.update k v al) \<Longrightarrow> (k' = k \<and> r = v) \<or> (k', r) \<in> set al"
  using set_update_subset [of k v al] by auto

lemma add_child_store_ok:
  assumes "store_ok g" and "p < length (heap g)"
  shows "store_ok (snd (snd (add_child knd lvl dsc pid p cid nm info g)))"
proof (rule store_okI)
  fix k r
  let ?g' = "snd (snd (add_child knd lvl dsc pid p cid nm info g))"
  assume "(k, r) \<in> set (elements ?g')"
  then have "(k, r) \<in> set (AList.update cid (length (heap g)) (elements g))"
    using assms(2) by (simp add: add_child_eq)
  then consider "k = cid" "r = length (heap g)" | "(k, r) \<in> set (elements g)"
    using update_entry by fastforce
  then show "r < length (heap ?g') \<and> el_id (heap ?g' ! r) = k"
  proof cases
    case 1
    then show ?thesis using assms(2) by (simp add: add_child_eq nth_append)
  next
    case 2
    from store_ok_entry [OF assms(1) 2] show ?thesis
      using assms(2) by (simp add: add_child_eq nth_append nth_list_update)
  qed
qed

lemma add_child_heap_grows:
  "p < length (heap g) \<Longrightarrow>
   length (heap (snd (snd (add_child knd lvl dsc pid p cid nm info g)))) = Suc (length (heap g))"
  by (simp add: add_child_eq)

lemma child_loop_store_ok:
  "store_ok g \<Longrightarrow> p < length (heap g) \<Longrightarrow>
   store_ok (snd (child_loop knd lvl dsc pid p infos els rels g))"
proof (induction infos arbitrary: els rels g)
  case Nil
  then show ?case by simp
next
  case (Cons info infos)
  show ?case
  proof (cases "ci_name info")
    case None
    with Cons.prems show ?thesis by (simp add: uuid4_def)
  next
    case (Some nm)
    let ?g1 = "g\<lparr>uuid_count := Suc (uuid_count g)\<rparr>"
    obtain r rel g2 where
      step: "add_child knd lvl dsc pid p (uuid_source g (uuid_count g)) nm info ?g1 = (r, rel, g2)"
      by (metis prod_cases3)
    have p1: "p < length (heap ?g1)" and ok1: "store_ok ?g1" using Cons.prems by simp_all
    from add_child_store_ok [OF ok1 p1, of knd lvl dsc pid "uuid_source g (uuid_count g)" nm info]
      add_child_heap_grows [OF p1, of knd lvl dsc pid "uuid_source g (uuid_count g)" nm info]
    have "store_ok g2" and "p < length (heap g2)" using step Cons.prems(2) by simp_all
    then have "store_ok (snd (child_loop knd lvl dsc pid p infos (els @ [r]) (rels @ [rel]) g2))"
      by (rule Cons.IH)
    with Some step show ?thesis by (simp add: uuid4_def)
  qed
qed

lemma create_context_diagram_eq:
  "create_context_diagram nm d t1 t2 g =
     (\<lparr>dg_id = uuid_source g (uuid_count g), dg_name = nm @ '' - Context'',
        dg_level = CONTEXT, dg_elements = [length (heap g)], dg_relationships = [],
        dg_created_at = t1, dg_updated_at = t2\<rparr>,
      g\<lparr>uuid_count := Suc (uuid_count g),
        heap := heap g @
          [\<lparr>el_id = uuid_source g (uuid_count g) @ ''_system'', el_name = nm,
             el_type = ''System'', el_level = CONTEXT, el_description = d,
             el_technology = Some [], el_relationships = [], el_properties = [],
             el_parent_id = None, el_children = []\<rparr>],
        diagrams := AList.update (uuid_source g (uuid_count g))
          \<lparr>dg_id = uuid_source g (uuid_count g), dg_name = nm @ '' - Context'',
            dg_level = CONTEXT, dg_elements = [length (heap g)], dg_relationships = [],
            dg_created_at = t1, dg_updated_at = t2\<rparr> (diagrams g),
        elements := AList.update (uuid_source g (uuid_count g) @ ''_system'')
          (length (heap g)) (elements g)\<rparr>)"
  by (simp add: create_context_diagram_def uuid4_def new_object_def Let_def)

lemma create_context_diagram_store_ok:
  assumes "store_ok g"
  shows "store_ok (snd (create_context_diagram nm d t1 t2 g))"
proof (rule store_okI)
  fix k r
  let ?g' = "snd (create_context_diagram nm d t1 t2 g)"
  let ?k = "uuid_source g (uuid_count g) @ ''_system''"
  assume "(k, r) \<in> set (elements ?g')"
  then have "(k, r) \<in> set (AList.update ?k (length (heap g)) (elements g))"
    by (simp add: create_context_diagram_eq)
  then consider "k = ?k" "r = length (heap g)" | "(k, r) \<in> set (elements g)"
    using update_entry by fastforce
  then show "r < length (heap ?g') \<and> el_id (heap ?g' ! r) = k"
  proof cases
    case 1
    then show ?thesis by (simp add: create_context_diagram_eq)
  next
    case 2
    from store_ok_entry [OF assms 2] show ?thesis
      by (simp add: create_context_diagram_eq nth_append)
  qed
qed

lemma create_container_diagram_store_ok:
  "store_ok g \<Longrightarrow> store_ok (snd (create_container_diagram sid infos t1 t2 g))"
proof (cases "map_of (elements g) sid")
  case None
  assume "store_ok g"
  with None show ?thesis by (simp add: create_container_diagram_def uuid4_def)
next
  case (Some p)
  assume ok: "store_ok g"
  let ?g1 = "g\<lparr>uuid_count := Suc (uuid_count g)\<rparr>"
  from store_okD [OF ok Some] have p1: "p < length (heap ?g1)" by simp
  from ok have ok1: "store_ok ?g1" by simp
  from child_loop_store_ok [OF ok1 p1]
  have "store_ok (snd (child_loop ''Container'' CONTAINER ''deployed on'' sid p infos [p] [] ?g1))" .
  with Some show ?thesis
    by (auto simp: create_container_diagram_def uuid4_def Let_def split: prod.splits sum.splits)
qed

lemma create_component_diagram_store_ok:
  "store_ok g \<Longrightarrow> store_ok (snd (create_component_diagram cid infos t1 t2 g))"
proof (cases "map_of (elements g) cid")
  case None
  assume "store_ok g"
  with None show ?thesis by (simp add: create_component_diagram_def uuid4_def)
next
  case (Some p)
  assume ok: "store_ok g"
  let ?g1 = "g\<lparr>uuid_count := Suc (uuid_count g)\<rparr>"
  from store_okD [OF ok Some] have p1: "p < length (heap ?g1)" by simp
  from ok have ok1: "store_ok ?g1" by simp
  from child_loop_store_ok [OF ok1 p1]
  have "store_ok (snd (child_loop ''Component'' COMPONENT ''part of'' cid p infos [p] [] ?g1))" .
  with Some show ?thesis
    by (auto simp: create_component_diagram_def uuid4_def Let_def split: prod.splits sum.splits)
qed

lemma add_relationship_frame:
  "elements (snd (add_relationship did f t d tech now g)) = elements g \<and>
   heap (snd (add_relationship did f t d tech now g)) = heap g \<and>
   uuid_source (snd (add_relationship did f t d tech now g)) = uuid_source g \<and>
   uuid_count (snd (add_relationship did f t d tech now g)) \<ge> uuid_count g"
  by (simp add: add_relationship_def uuid4_def Let_def split: option.splits)

lemma drill_down_frame:
  "elements (snd (drill_down eid t1 t2 g)) = elements g \<and>
   heap (snd (drill_down eid t1 t2 g)) = heap g \<and>
   uuid_source (snd (drill_down eid t1 t2 g)) = uuid_source g \<and>
   uuid_count (snd (drill_down eid t1 t2 g)) \<ge> uuid_count g"
  by (simp add: drill_down_def uuid4_def Let_def split: option.splits)

lemma store_ok_frame:
  "elements g' = elements g \<Longrightarrow> heap g' = heap g \<Longrightarrow> store_ok g' = store_ok g"
  by (simp add: store_ok_def)

lemma step_store_ok: "store_ok g \<Longrightarrow> store_ok (step op g)"
proof (cases op)
  case (CreateContext nm d t1 t2)
  assume "store_ok g"
  with CreateContext show ?thesis by (simp add: create_context_diagram_store_ok)
next
  case (CreateContainer sid infos t1 t2)
  assume "store_ok g"
  with CreateContainer show ?thesis by (simp add: create_container_diagram_store_ok)
next
  case (CreateComponent cid infos t1 t2)
  assume "store_ok g"
  with CreateComponent show ?thesis by (simp add: create_component_diagram_store_ok)
next
  case (AddRelationship did f t d tech now)
  assume "store_ok g"
  moreover have "store_ok (snd (add_relationship did f t d tech now g)) = store_ok g"
    by (rule store_ok_frame) (simp_all add: add_relationship_frame)
  ultimately show ?thesis using AddRelationship by simp
next
  case (DrillDown eid t1 t2)
  assume "store_ok g"
  moreover have "store_ok (snd (drill_down eid t1 t2 g)) = store_ok g"
    by (rule store_ok_frame) (simp_all add: drill_down_frame)
  ultimately show ?thesis using DrillDown by simp
qed

lemma run_store_ok: "store_ok g \<Longrightarrow> store_ok (run ops g)"
  unfolding run_def
  by (induction ops arbitrary: g) (simp_all add: step_store_ok)

section \<open>Drilling down twice\<close>

lemma find_after_update:
  "find P (map snd al) = None \<Longrightarrow> P d \<Longrightarrow> find P (map snd (AList.update k d al)) = Some d"
  by (induction al) (auto split: if_splits)

lemma explores_frame: "heap g' = heap g \<Longrightarrow> explores g' eid d = explores g eid d"
  by (simp add: explores_def deref_def split: list.splits)

lemma explores_after_drill:
  "explores (g\<lparr>uuid_count := n, diagrams := ds\<rparr>) eid = explores g eid"
  by (rule ext) (simp add: explores_def deref_def split: list.splits)

lemma drill_down_new:
  assumes "map_of (elements g) eid = Some r" and "el_children (deref g r) \<noteq> []"
    and "find (explores g eid) (map snd (diagrams g)) = None"
    and "child_elements g (el_children (deref g r)) \<noteq> []"
  shows "drill_down eid t1 t2 g =
    (Some \<lparr>dg_id = uuid_source g (uuid_count g),
            dg_name = el_name (deref g r) @ '' - Details'',
            dg_level = get_next_level (el_level (deref g r)),
            dg_elements = r # child_elements g (el_children (deref g r)),
            dg_relationships = [], dg_created_at = t1, dg_updated_at = t2\<rparr>,
     g\<lparr>uuid_count := Suc (uuid_count g),
       diagrams := AList.update (uuid_source g (uuid_count g))
         \<lparr>dg_id = uuid_source g (uuid_count g),
            dg_name = el_name (deref g r) @ '' - Details'',
            dg_level = get_next_level (el_level (deref g r)),
            dg_elements = r # child_elements g (el_children (deref g r)),
            dg_relationships = [], dg_created_at = t1, dg_updated_at = t2\<rparr> (diagrams g)\<rparr>)"
  unfolding drill_down_def uuid4_def Let_def using assms by simp

lemma drill_down_found:
  assumes "map_of (elements g) eid = Some r" and "el_children (deref g r) \<noteq> []"
    and "find (explores g eid) (map snd (diagrams g)) = Some d"
  shows "drill_down eid t1 t2 g = (Some d, g)"
  unfolding drill_down_def using assms by simp

lemma drill_down_twice:
  assumes "store_ok g"
  shows "drill_down eid t3 t4 (snd (drill_down eid t1 t2 g)) =
           (fst (drill_down eid t1 t2 g), snd (drill_down eid t1 t2 g))"
proof (cases "map_of (elements g) eid")
  case None
  then show ?thesis by (simp add: drill_down_def)
next
  case (Some r)
  note lk = Some
  show ?thesis
  proof (cases "el_children (deref g r) = []")
    case True
    with lk show ?thesis by (simp add: drill_down_def)
  next
    case False
    note ch = False
    show ?thesis
    proof (cases "find (explores g eid) (map snd (diagrams g))")
      case (Some d)
      from drill_down_found [OF lk ch Some] show ?thesis by simp
    next
      case None
      note nf = None
      show ?thesis
      proof (cases "child_elements g (el_children (deref g r)) = []")
        case True
        with lk ch nf show ?thesis by (simp add: drill_down_def)
      next
        case False
        define d where "d = \<lparr>dg_id = uuid_source g (uuid_count g),
                    dg_name = el_name (deref g r) @ '' - Details'',
                    dg_level = get_next_level (el_level (deref g r)),
                    dg_elements = r # child_elements g (el_children (deref g r)),
                    dg_relationships = [], dg_created_at = t1, dg_updated_at = t2\<rparr>"
        define g1 where "g1 = g\<lparr>uuid_count := Suc (uuid_count g),
                     diagrams := AList.update (uuid_source g (uuid_count g)) d (diagrams g)\<rparr>"
        have first: "drill_down eid t1 t2 g = (Some d, g1)"
          unfolding d_def g1_def by (rule drill_down_new [OF lk ch nf False])
        have "el_id (deref g r) = eid"
          using store_okD [OF assms lk] by (simp add: deref_def)
        then have ex: "explores g eid d" by (simp add: explores_def d_def)
        have ef: "explores g1 eid = explores g eid"
          unfolding g1_def by (rule explores_after_drill)
        have ds: "diagrams g1 = AList.update (uuid_source g (uuid_count g)) d (diagrams g)"
          by (simp add: g1_def)
        have found: "find (explores g1 eid) (map snd (diagrams g1)) = Some d"
          unfolding ef ds by (rule find_after_update [OF nf ex])
        have lk1: "map_of (elements g1) eid = Some r" using lk by (simp add: g1_def)
        have ch1: "el_children (deref g1 r) \<noteq> []" using ch by (simp add: g1_def deref_def)
        have "drill_down eid t3 t4 g1 = (Some d, g1)"
          by (rule drill_down_found [OF lk1 ch1 found])
        with first show ?thesis by simp
      qed
    qed
  qed
qed

text \<open>
  Claim C6. In every state reached from the empty generator by any sequence of
  \<open>create_context_diagram\<close>, \<open>create_container_diagram\<close>, \<open>create_component_diagram\<close>,
  \<open>add_relationship\<close> and \<open>drill_down\<close> calls, for every element identifier, a
  second \<open>drill_down\<close> right after a first one returns what the first returned (the
  same diagram, hence the same diagram identifier, or None both times) and leaves the
  whole state as the first call left it.
\<close>

theorem drill_down_idempotent:
  "drill_down eid t3 t4 (snd (drill_down eid t1 t2 (run ops (init src)))) =
     (fst (drill_down eid t1 t2 (run ops (init src))),
      snd (drill_down eid t1 t2 (run ops (init src))))"
  by (rule drill_down_twice) (rule run_store_ok [OF store_ok_init])

section \<open>The hierarchy invariant over call sequences\<close>

lemma children_okI:
  "(\<And>k r c. (k, r) \<in> set (elements g) \<Longrightarrow> c \<in> set (el_children (heap g ! r)) \<Longrightarrow>
      \<exists>b. map_of (elements g) c = Some b \<and> rel (heap g ! r) (heap g ! b))
   \<Longrightarrow> children_ok rel g"
  by (fastforce simp: children_ok_def list_all_iff split: option.splits)

lemma children_okD:
  "children_ok rel g \<Longrightarrow> (k, r) \<in> set (elements g) \<Longrightarrow> c \<in> set (el_children (heap g ! r)) \<Longrightarrow>
      \<exists>b. map_of (elements g) c = Some b \<and> rel (heap g ! r) (heap g ! b)"
  by (fastforce simp: children_ok_def list_all_iff split: option.splits)

lemma fresh_key:
  assumes "uuid_fresh src" and "keys_drawn g" and "uuid_source g = src"
    and "uuid_count g \<le> n"
  shows "src n \<notin> fst ` set (elements g)" and "src n @ ''_system'' \<notin> fst ` set (elements g)"
proof -
  have inj: "\<And>i j. src i = src j \<Longrightarrow> i = j" and sys: "\<And>i j. src i @ ''_system'' \<noteq> src j"
    using assms(1) by (auto simp: uuid_fresh_def inj_def)
  { fix k r assume "(k, r) \<in> set (elements g)"
    then obtain i where i: "i < uuid_count g" "k = src i \<or> k = src i @ ''_system''"
      using assms(2,3) by (fastforce simp: keys_drawn_def)
    have "k \<noteq> src n" using i assms(4) inj [of i n] sys [of i n] by auto
    moreover have "k \<noteq> src n @ ''_system''" using i assms(4) inj [of i n] sys [of n i] by auto
    ultimately have "k \<noteq> src n \<and> k \<noteq> src n @ ''_system''" by simp }
  then show "src n \<notin> fst ` set (elements g)" and "src n @ ''_system'' \<notin> fst ` set (elements g)"
    by force+
qed


lemma map_of_in_keys: "map_of al k = Some v \<Longrightarrow> k \<in> fst ` set al"
  by (force dest: map_of_SomeD)

lemma related_children [simp]:
  "related lv (a\<lparr>el_children := cs\<rparr>) b = related lv a b"
  "related lv a (b\<lparr>el_children := ds\<rparr>) = related lv a b"
  by (simp_all add: related_def linked_def one_deeper_def)

lemma add_child_inv:
  assumes fresh: "uuid_fresh src" and i: "gen_inv src lv g" and p: "p < length (heap g)"
    and pid: "el_id (heap g ! p) = pid"
    and lvl: "lv \<longrightarrow> level_depth lvl = Suc (level_depth (el_level (heap g ! p)))"
  shows "gen_inv src lv (snd (snd (add_child knd lvl dsc pid p (src (uuid_count g)) nm info
                                 (g\<lparr>uuid_count := Suc (uuid_count g)\<rparr>))))"
proof -
  let ?c = "uuid_count g"
  let ?cid = "src ?c"
  let ?n = "length (heap g)"
  let ?g1 = "g\<lparr>uuid_count := Suc ?c\<rparr>"
  define child where "child = \<lparr>el_id = ?cid, el_name = nm, el_type = knd, el_level = lvl,
       el_description = (case ci_description info of None \<Rightarrow> [] | Some d \<Rightarrow> d),
       el_technology = Some (case ci_technology info of None \<Rightarrow> [] | Some t \<Rightarrow> t),
       el_relationships = [],
       el_properties = (case ci_properties info of None \<Rightarrow> [] | Some p \<Rightarrow> p),
       el_parent_id = Some pid, el_children = []\<rparr>"
  define g' where "g' = snd (snd (add_child knd lvl dsc pid p ?cid nm info ?g1))"
  have src: "uuid_source g = src" and ok: "store_ok g" and kd: "keys_drawn g"
    and co: "children_ok (related lv) g"
    using i by (simp_all add: gen_inv_def)
  have p1: "p < length (heap ?g1)" using p by simp
  have hp: "heap g' = (heap g)[p := (heap g ! p)\<lparr>el_children :=
                el_children (heap g ! p) @ [?cid]\<rparr>] @ [child]"
    and el: "elements g' = AList.update ?cid ?n (elements g)"
    and cnt: "uuid_count g' = Suc (Suc ?c)" and src': "uuid_source g' = src"
    unfolding g'_def child_def using src by (simp_all add: add_child_eq [OF p1])
  have old: "heap g' ! b =
      (if b = p then (heap g ! b)\<lparr>el_children := el_children (heap g ! b) @ [?cid]\<rparr>
       else heap g ! b)" if "b < ?n" for b
    unfolding hp using that by (rule grown_heap_nth)
  have new: "heap g' ! ?n = child"
    unfolding hp by (simp add: nth_append)
  have fr: "?cid \<notin> fst ` set (elements g)"
    using fresh_key(1) [OF fresh kd src, of ?c] by simp
  have lk: "map_of (elements g') k = (if k = ?cid then Some ?n else map_of (elements g) k)" for k
    unfolding el by (simp add: update_conv')
  have ok': "store_ok g'"
    unfolding g'_def using ok p1 by (intro add_child_store_ok) simp_all
  have kd': "keys_drawn g'"
    unfolding keys_drawn_def
  proof (clarify)
    fix k r assume "(k, r) \<in> set (elements g')"
    then consider "k = ?cid" | "(k, r) \<in> set (elements g)"
      unfolding el using update_entry by fastforce
    then show "\<exists>i<uuid_count g'. k = uuid_source g' i \<or> k = uuid_source g' i @ ''_system''"
    proof cases
      case 1
      then show ?thesis unfolding cnt src' by (intro exI [of _ ?c]) simp
    next
      case 2
      then obtain i where "i < ?c" "k = src i \<or> k = src i @ ''_system''"
        using kd src by (fastforce simp: keys_drawn_def)
      then show ?thesis unfolding cnt src' by (intro exI [of _ i]) simp
    qed
  qed
  have co': "children_ok (related lv) g'"
  proof (rule children_okI)
    fix k r c
    assume kr: "(k, r) \<in> set (elements g')" and c: "c \<in> set (el_children (heap g' ! r))"
    from kr consider "k = ?cid" "r = ?n" | "(k, r) \<in> set (elements g)"
      unfolding el using update_entry by fastforce
    then show "\<exists>b. map_of (elements g') c = Some b \<and> related lv (heap g' ! r) (heap g' ! b)"
    proof cases
      case 1
      with c new show ?thesis by (simp add: child_def)
    next
      case 2
      from store_ok_entry [OF ok 2] have r: "r < ?n" by simp
      show ?thesis
      proof (cases "c \<in> set (el_children (heap g ! r))")
        case True
        from children_okD [OF co 2 True] obtain b where
          b: "map_of (elements g) c = Some b" "related lv (heap g ! r) (heap g ! b)" by blast
        from b(1) fr have "c \<noteq> ?cid" by (auto dest: map_of_in_keys)
        with b(1) have "map_of (elements g') c = Some b" by (simp add: lk)
        moreover from store_okD [OF ok b(1)] have "b < ?n" by simp
        then have "related lv (heap g' ! r) (heap g' ! b)"
          using b(2) r by (auto simp: old)
        ultimately show ?thesis by blast
      next
        case False
        with c r have rp: "r = p" and cc: "c = ?cid"
          by (auto simp: old split: if_splits)
        have "related lv (heap g' ! p) child"
          using p pid lvl by (simp add: old related_def linked_def one_deeper_def child_def)
        with rp cc new show ?thesis by (simp add: lk)
      qed
    qed
  qed
  show ?thesis
    using src' ok' kd' co' unfolding g'_def gen_inv_def by simp
qed


lemma inv_frame:
  assumes "gen_inv src lv g" and "elements g' = elements g" and "heap g' = heap g"
    and "uuid_source g' = uuid_source g" and "uuid_count g \<le> uuid_count g'"
  shows "gen_inv src lv g'"
proof -
  have "keys_drawn g'"
    unfolding keys_drawn_def
  proof (clarify)
    fix k r assume "(k, r) \<in> set (elements g')"
    then have "(k, r) \<in> set (elements g)" using assms(2) by simp
    then obtain i where "i < uuid_count g"
        "k = uuid_source g i \<or> k = uuid_source g i @ ''_system''"
      using assms(1) by (fastforce simp: gen_inv_def keys_drawn_def)
    then show "\<exists>i<uuid_count g'. k = uuid_source g' i \<or> k = uuid_source g' i @ ''_system''"
      using assms(4,5) by (intro exI [of _ i]) auto
  qed
  moreover have "store_ok g' = store_ok g"
    unfolding store_ok_def assms(2,3) ..
  moreover have "children_ok (related lv) g' = children_ok (related lv) g"
    unfolding children_ok_def assms(2,3) ..
  ultimately show ?thesis
    using assms(1,4) by (simp add: gen_inv_def)
qed

lemma inv_count:
  assumes "gen_inv src lv g"
  shows "gen_inv src lv (g\<lparr>uuid_count := Suc (uuid_count g)\<rparr>)"
  by (rule inv_frame [OF assms]) simp_all

lemma inv_diagrams:
  assumes "gen_inv src lv g"
  shows "gen_inv src lv (g\<lparr>diagrams := ds\<rparr>)"
  by (rule inv_frame [OF assms]) simp_all

lemma add_child_anchor:
  assumes "p < length (heap g)"
  shows "p < length (heap (snd (snd (add_child knd lvl dsc pid p cid nm info g))))"
    and "el_id (heap (snd (snd (add_child knd lvl dsc pid p cid nm info g))) ! p) = el_id (heap g ! p)"
    and "el_level (heap (snd (snd (add_child knd lvl dsc pid p cid nm info g))) ! p) =
           el_level (heap g ! p)"
  using assms by (simp_all add: add_child_eq nth_append)

lemma child_loop_inv:
  assumes "uuid_fresh src"
  shows "gen_inv src lv g \<Longrightarrow> p < length (heap g) \<Longrightarrow> el_id (heap g ! p) = pid \<Longrightarrow>
     (lv \<longrightarrow> level_depth lvl = Suc (level_depth (el_level (heap g ! p)))) \<Longrightarrow>
     gen_inv src lv (snd (child_loop knd lvl dsc pid p infos els rels g))"
proof (induction infos arbitrary: els rels g)
  case Nil
  then show ?case by simp
next
  case (Cons info infos)
  let ?g1 = "g\<lparr>uuid_count := Suc (uuid_count g)\<rparr>"
  have src: "uuid_source g = src" using Cons.prems(1) by (simp add: gen_inv_def)
  show ?case
  proof (cases "ci_name info")
    case None
    with inv_count [OF Cons.prems(1)] show ?thesis by (simp add: uuid4_def)
  next
    case (Some nm)
    obtain r rel g2 where
      step: "add_child knd lvl dsc pid p (src (uuid_count g)) nm info ?g1 = (r, rel, g2)"
      by (metis prod_cases3)
    have p1: "p < length (heap ?g1)" using Cons.prems(2) by simp
    from add_child_inv [OF assms Cons.prems(1,2,3,4), of knd dsc nm info] step
    have i2: "gen_inv src lv g2" by simp
    from add_child_anchor [OF p1, of knd lvl dsc pid "src (uuid_count g)" nm info] step
    have a2: "p < length (heap g2)" "el_id (heap g2 ! p) = pid"
      "el_level (heap g2 ! p) = el_level (heap g ! p)"
      using Cons.prems(3) by simp_all
    from a2(3) Cons.prems(4)
    have l2: "lv \<longrightarrow> level_depth lvl = Suc (level_depth (el_level (heap g2 ! p)))" by simp
    have "gen_inv src lv (snd (child_loop knd lvl dsc pid p infos (els @ [r]) (rels @ [rel]) g2))"
      by (rule Cons.IH [OF i2 a2(1,2) l2])
    with Some step src show ?thesis by (simp add: uuid4_def)
  qed
qed

lemma create_context_diagram_inv:
  assumes fresh: "uuid_fresh src" and i: "gen_inv src lv g"
  shows "gen_inv src lv (snd (create_context_diagram nm d t1 t2 g))"
proof -
  let ?c = "uuid_count g"
  let ?k = "src ?c @ ''_system''"
  let ?n = "length (heap g)"
  define g' where "g' = snd (create_context_diagram nm d t1 t2 g)"
  have src: "uuid_source g = src" and ok: "store_ok g" and kd: "keys_drawn g"
    and co: "children_ok (related lv) g"
    using i by (simp_all add: gen_inv_def)
  have el: "elements g' = AList.update ?k ?n (elements g)"
    and cnt: "uuid_count g' = Suc ?c" and src': "uuid_source g' = src"
    and new: "el_children (heap g' ! ?n) = []"
    and old: "\<And>b. b < ?n \<Longrightarrow> heap g' ! b = heap g ! b"
    unfolding g'_def using src by (simp_all add: create_context_diagram_eq nth_append)
  have fr: "?k \<notin> fst ` set (elements g)"
    using fresh_key(2) [OF fresh kd src, of ?c] by simp
  have lk: "map_of (elements g') k = (if k = ?k then Some ?n else map_of (elements g) k)" for k
    unfolding el by (simp add: update_conv')
  have ok': "store_ok g'"
    unfolding g'_def using ok by (rule create_context_diagram_store_ok)
  have kd': "keys_drawn g'"
    unfolding keys_drawn_def
  proof (clarify)
    fix k r assume "(k, r) \<in> set (elements g')"
    then consider "k = ?k" | "(k, r) \<in> set (elements g)"
      unfolding el using update_entry by fastforce
    then show "\<exists>i<uuid_count g'. k = uuid_source g' i \<or> k = uuid_source g' i @ ''_system''"
    proof cases
      case 1
      then show ?thesis unfolding cnt src' by (intro exI [of _ ?c]) simp
    next
      case 2
      then obtain i where "i < ?c" "k = src i \<or> k = src i @ ''_system''"
        using kd src by (fastforce simp: keys_drawn_def)
      then show ?thesis unfolding cnt src' by (intro exI [of _ i]) simp
    qed
  qed
  have co': "children_ok (related lv) g'"
  proof (rule children_okI)
    fix k r c
    assume kr: "(k, r) \<in> set (elements g')" and c: "c \<in> set (el_children (heap g' ! r))"
    from kr consider "k = ?k" "r = ?n" | "(k, r) \<in> set (elements g)"
      unfolding el using update_entry by fastforce
    then show "\<exists>b. map_of (elements g') c = Some b \<and> related lv (heap g' ! r) (heap g' ! b)"
    proof cases
      case 1
      with c new show ?thesis by simp
    next
      case 2
      from store_ok_entry [OF ok 2] have r: "r < ?n" by simp
      with c have "c \<in> set (el_children (heap g ! r))" by (simp add: old)
      from children_okD [OF co 2 this] obtain b where
        b: "map_of (elements g) c = Some b" "related lv (heap g ! r) (heap g ! b)" by blast
      from b(1) fr have "c \<noteq> ?k" by (auto dest: map_of_in_keys)
      with b(1) have "map_of (elements g') c = Some b" by (simp add: lk)
      moreover from store_okD [OF ok b(1)] have "b < ?n" by simp
      then have "related lv (heap g' ! r) (heap g' ! b)"
        using b(2) r by (simp add: old)
      ultimately show ?thesis by blast
    qed
  qed
  show ?thesis
    using src' ok' kd' co' unfolding g'_def gen_inv_def by simp
qed

lemma create_container_diagram_inv:
  assumes fresh: "uuid_fresh src" and i: "gen_inv src lv g"
    and a: "lv \<longrightarrow> anchor_ok (CreateContainer sid infos t1 t2) g"
  shows "gen_inv src lv (snd (create_container_diagram sid infos t1 t2 g))"
proof (cases "map_of (elements g) sid")
  case None
  with inv_count [OF i] show ?thesis by (simp add: create_container_diagram_def uuid4_def)
next
  case (Some p)
  let ?g1 = "g\<lparr>uuid_count := Suc (uuid_count g)\<rparr>"
  have ok: "store_ok g" using i by (simp add: gen_inv_def)
  from store_okD [OF ok Some]
  have p1: "p < length (heap ?g1)" and id1: "el_id (heap ?g1 ! p) = sid" by simp_all
  from a Some
  have l1: "lv \<longrightarrow> level_depth CONTAINER = Suc (level_depth (el_level (heap ?g1 ! p)))"
    by simp
  from child_loop_inv [OF fresh inv_count [OF i] p1 id1 l1]
  have "gen_inv src lv (snd (child_loop ''Container'' CONTAINER ''deployed on'' sid p infos [p] [] ?g1))" .
  with Some show ?thesis
    by (auto simp: create_container_diagram_def uuid4_def Let_def inv_diagrams
        split: prod.splits sum.splits)
qed

lemma create_component_diagram_inv:
  assumes fresh: "uuid_fresh src" and i: "gen_inv src lv g"
    and a: "lv \<longrightarrow> anchor_ok (CreateComponent cid infos t1 t2) g"
  shows "gen_inv src lv (snd (create_component_diagram cid infos t1 t2 g))"
proof (cases "map_of (elements g) cid")
  case None
  with inv_count [OF i] show ?thesis by (simp add: create_component_diagram_def uuid4_def)
next
  case (Some p)
  let ?g1 = "g\<lparr>uuid_count := Suc (uuid_count g)\<rparr>"
  have ok: "store_ok g" using i by (simp add: gen_inv_def)
  from store_okD [OF ok Some]
  have p1: "p < length (heap ?g1)" and id1: "el_id (heap ?g1 ! p) = cid" by simp_all
  from a Some
  have l1: "lv \<longrightarrow> level_depth COMPONENT = Suc (level_depth (el_level (heap ?g1 ! p)))"
    by simp
  from child_loop_inv [OF fresh inv_count [OF i] p1 id1 l1]
  have "gen_inv src lv (snd (child_loop ''Component'' COMPONENT ''part of'' cid p infos [p] [] ?g1))" .
  with Some show ?thesis
    by (auto simp: create_component_diagram_def uuid4_def Let_def inv_diagrams
        split: prod.splits sum.splits)
qed

lemma step_inv:
  assumes fresh: "uuid_fresh src" and i: "gen_inv src lv g" and a: "lv \<longrightarrow> anchor_ok op g"
  shows "gen_inv src lv (step op g)"
proof (cases op)
  case (CreateContext nm d t1 t2)
  with create_context_diagram_inv [OF fresh i] show ?thesis by simp
next
  case (CreateContainer sid infos t1 t2)
  with create_container_diagram_inv [OF fresh i] a show ?thesis by simp
next
  case (CreateComponent cid infos t1 t2)
  with create_component_diagram_inv [OF fresh i] a show ?thesis by simp
next
  case (AddRelationship did f t d tech now)
  have "gen_inv src lv (snd (add_relationship did f t d tech now g))"
    by (rule inv_frame [OF i]) (simp_all add: add_relationship_frame)
  with AddRelationship show ?thesis by simp
next
  case (DrillDown eid t1 t2)
  have "gen_inv src lv (snd (drill_down eid t1 t2 g))"
    by (rule inv_frame [OF i]) (simp_all add: drill_down_frame)
  with DrillDown show ?thesis by simp
qed

lemma run_inv:
  assumes "uuid_fresh src"
  shows "gen_inv src lv g \<Longrightarrow> (lv \<longrightarrow> anchors_levelled ops g) \<Longrightarrow> gen_inv src lv (run ops g)"
proof (induction ops arbitrary: g)
  case Nil
  then show ?case by (simp add: run_def)
next
  case (Cons op ops)
  from Cons.prems(2) have a: "lv \<longrightarrow> anchor_ok op g"
    and rest: "lv \<longrightarrow> anchors_levelled ops (step op g)" by simp_all
  from Cons.IH [OF step_inv [OF assms Cons.prems(1) a] rest]
  show ?case by (simp add: run_def)
qed

lemma inv_init: "gen_inv src lv (init src)"
  by (simp add: gen_inv_def init_def store_ok_def keys_drawn_def children_ok_def)

lemma children_ok_mono:
  "(\<And>a b. rel a b \<Longrightarrow> rel' a b) \<Longrightarrow> children_ok rel g \<Longrightarrow> children_ok rel' g"
  by (rule children_okI) (blast dest: children_okD)

text \<open>
  Claim C2, as the code has it. With an identifier source that never collides, after
  every sequence of calls from the empty generator every identifier in the children list
  of a stored element resolves to a stored element whose \<open>parent_id\<close> is the parent's
  id. If moreover the sequence is levelled (containers are only created under
  Context-level anchors and components only under Container-level anchors), every child
  is also exactly one level deeper than its parent. The builders themselves do not look
  at the level of the anchor.
\<close>

theorem hierarchy_invariant:
  assumes "uuid_fresh src"
  shows "parent_links_ok (run ops (init src)) \<and>
         (anchors_levelled ops (init src) \<longrightarrow> hierarchy_inv (run ops (init src)))"
proof
  from run_inv [OF assms inv_init, of False ops]
  have "children_ok (related False) (run ops (init src))" by (simp add: gen_inv_def)
  then show "parent_links_ok (run ops (init src))"
    unfolding parent_links_ok_def
    by (rule children_ok_mono [rotated]) (simp add: related_def)
next
  show "anchors_levelled ops (init src) \<longrightarrow> hierarchy_inv (run ops (init src))"
  proof
    assume "anchors_levelled ops (init src)"
    with run_inv [OF assms inv_init, of True ops]
    have "children_ok (related True) (run ops (init src))" by (simp add: gen_inv_def)
    then show "hierarchy_inv (run ops (init src))"
      unfolding hierarchy_inv_def
      by (rule children_ok_mono [rotated]) (simp add: related_def)
  qed
qed


lemma unary_uuid_length: "length (unary_uuid n) = Suc n"
  by (simp add: unary_uuid_def)

lemma unary_uuid_chars: "c \<in> set (unary_uuid n) \<Longrightarrow> c = CHR ''u''"
  by (auto simp: unary_uuid_def)

lemma unary_uuid_fresh: "uuid_fresh unary_uuid"
proof -
  have "inj unary_uuid"
  proof (rule injI)
    fix i j assume "unary_uuid i = unary_uuid j"
    then have "length (unary_uuid i) = length (unary_uuid j)" by (rule arg_cong)
    then show "i = j" by (simp only: unary_uuid_length nat.inject)
  qed
  moreover have "unary_uuid i @ ''_system'' \<noteq> unary_uuid j" for i j
  proof
    assume e: "unary_uuid i @ ''_system'' = unary_uuid j"
    have "CHR ''_'' \<in> set (unary_uuid i @ ''_system'')" by simp
    then have "CHR ''_'' \<in> set (unary_uuid j)" unfolding e .
    then have "CHR ''_'' = CHR ''u''" by (rule unary_uuid_chars)
    then show False by simp
  qed
  ultimately show ?thesis unfolding uuid_fresh_def by blast
qed

theorem hierarchy_invariant_witness:
  "uuid_fresh unary_uuid \<and>
   anchors_levelled
     [CreateContext ''Payments'' ''handles billing'' 0 0,
      CreateContainer ''u_system'' [named ''API'', named ''Worker''] 1 1] (init unary_uuid) \<and>
   parent_links_ok
     (run [CreateContext ''Payments'' ''handles billing'' 0 0,
           CreateContainer ''u_system'' [named ''API'', named ''Worker''] 1 1]
        (init unary_uuid)) \<and>
   hierarchy_inv
     (run [CreateContext ''Payments'' ''handles billing'' 0 0,
           CreateContainer ''u_system'' [named ''API'', named ''Worker''] 1 1]
        (init unary_uuid))"
proof -
  have a: "anchors_levelled
     [CreateContext ''Payments'' ''handles billing'' 0 0,
      CreateContainer ''u_system'' [named ''API'', named ''Worker''] 1 1] (init unary_uuid)"
    using payments_context_eq by (simp add: payments_context_def)
  show ?thesis
    using a unary_uuid_fresh
      hierarchy_invariant [OF unary_uuid_fresh,
        of "[CreateContext ''Payments'' ''handles billing'' 0 0,
             CreateContainer ''u_system'' [named ''API'', named ''Worker''] 1 1]"]
    by blast
qed

lemma payments_components_step:
  "payments_components =
     snd (create_component_diagram ''u_system'' [named ''Ledger''] 1 1 payments_context)"
  by (simp add: payments_components_def run_def payments_context_def)

lemma payments_components_eq:
  "payments_components =
     \<lparr>diagrams =
        [(''u'',
          \<lparr>dg_id = ''u'', dg_name = ''Payments - Context'', dg_level = CONTEXT,
             dg_elements = [0], dg_relationships = [], dg_created_at = 0,
             dg_updated_at = 0\<rparr>),
         (''uu'',
          \<lparr>dg_id = ''uu'', dg_name = ''Payments - Components'',
             dg_level = COMPONENT, dg_elements = [0, 1],
             dg_relationships =
               [\<lparr>rel_id = ''uuuu'', rel_from = ''uuu'', rel_to = ''u_system'',
                   rel_description = ''part of'', rel_technology = []\<rparr>],
             dg_created_at = 1, dg_updated_at = 1\<rparr>)],
      elements = [(''u_system'', 0), (''uuu'', 1)],
      heap =
        [\<lparr>el_id = ''u_system'', el_name = ''Payments'', el_type = ''System'',
            el_level = CONTEXT, el_description = ''handles billing'',
            el_technology = Some [], el_relationships = [],
            el_properties = [], el_parent_id = None, el_children = [''uuu'']\<rparr>,
         \<lparr>el_id = ''uuu'', el_name = ''Ledger'', el_type = ''Component'',
            el_level = COMPONENT, el_description = [],
            el_technology = Some [], el_relationships = [],
            el_properties = [], el_parent_id = Some ''u_system'',
            el_children = []\<rparr>],
      uuid_source = unary_uuid, uuid_count = 4\<rparr>"
  unfolding payments_components_step
  by (simp add: payments_context_eq create_component_diagram_def
      add_child_def children_append_def deref_def named_def
      uuid4_def new_object_def unary_uuid_def Let_def)

theorem hierarchy_counterexample:
  "map_of (elements payments_context) ''u_system'' = Some 0 \<and>
   payments_components =
     snd (create_component_diagram ''u_system'' [named ''Ledger''] 1 1 payments_context) \<and>
   el_children (deref payments_components 0) = [''uuu''] \<and>
   map_of (elements payments_components) ''uuu'' = Some 1 \<and>
   el_level (deref payments_components 0) = CONTEXT \<and>
   el_level (deref payments_components 1) = COMPONENT \<and>
   \<not> hierarchy_inv payments_components"
proof -
  have "payments_components =
     snd (create_component_diagram ''u_system'' [named ''Ledger''] 1 1 payments_context)"
    by (simp add: payments_components_def run_def payments_context_def)
  moreover have "map_of (elements payments_context) ''u_system'' = Some 0"
    by (simp add: payments_context_eq)
  moreover have "el_children (deref payments_components 0) = [''uuu''] \<and>
   map_of (elements payments_components) ''uuu'' = Some 1 \<and>
   el_level (deref payments_components 0) = CONTEXT \<and>
   el_level (deref payments_components 1) = COMPONENT \<and>
   \<not> hierarchy_inv payments_components"
    by (simp add: payments_components_eq deref_def hierarchy_inv_def children_ok_def
        one_deeper_def linked_def)
  ultimately show ?thesis by blast
qed

end
